theory Spec2Isabelle
  imports Complex_Main "HOL-Library.Char_ord" "HOL-Library.List_Lexorder"
begin

section \<open>Python values\<close>

text \<open>The exceptions the program can end with. \<open>SystemExit\<close> carries the exit status.\<close>

datatype pyerror =
    JSONDecodeError | KeyError | TypeError | AttributeError | ValueError
  | OverflowError | ZeroDivisionError | OSError | SystemExit int

text \<open>
  A Python \<open>float\<close> is an IEEE 754 binary64 value: a finite number (kept as the
  rational it denotes, \<open>Finite 0\<close> being \<open>+0.0\<close>), \<open>-0.0\<close>, an infinity or the NaN.
\<close>

datatype pyfloat = Finite rat | NegZero | PosInf | NegInf | NaN

text \<open>
  What \<open>json.loads\<close> returns: \<open>None\<close>, a \<open>bool\<close>, an \<open>int\<close>, a \<open>float\<close>, a \<open>str\<close>,
  a \<open>list\<close> or a \<open>dict\<close> with \<open>str\<close> keys. A \<open>dict\<close> is the list of its items in insertion
  order; a lookup reads the first item of a key.
\<close>

datatype json =
    JNull | JBool bool | JInt int | JFloat pyfloat | JString string
  | JArray "json list" | JObject "(string \<times> json) list"

text \<open>\<open>v[k]\<close> for a \<open>str\<close> key \<open>k\<close>: only a \<open>dict\<close> can be indexed by a \<open>str\<close>.\<close>

definition py_getitem :: "json \<Rightarrow> string \<Rightarrow> pyerror + json" where
  "py_getitem v k =
     (case v of
        JObject kvs \<Rightarrow> (case map_of kvs k of None \<Rightarrow> Inl KeyError | Some x \<Rightarrow> Inr x)
      | _ \<Rightarrow> Inl TypeError)"

text \<open>\<open>v.get(k, default)\<close>: only a \<open>dict\<close> has the method \<open>get\<close>.\<close>

definition py_get :: "json \<Rightarrow> string \<Rightarrow> json \<Rightarrow> pyerror + json" where
  "py_get v k dflt =
     (case v of
        JObject kvs \<Rightarrow> Inr (case map_of kvs k of None \<Rightarrow> dflt | Some x \<Rightarrow> x)
      | _ \<Rightarrow> Inl AttributeError)"

text \<open>
  The key a value is stored under in a \<open>dict\<close>: two values are the same key when they are
  equal in Python, so \<open>True\<close>, \<open>1\<close> and \<open>1.0\<close> are one key. A \<open>list\<close> and a \<open>dict\<close> are not
  hashable and have no key.
\<close>

datatype pykey = KNone | KStr string | KNum rat | KPosInf | KNegInf | KNaN

fun key_of :: "json \<Rightarrow> pykey option" where
  "key_of JNull = Some KNone"
| "key_of (JBool b) = Some (KNum (if b then 1 else 0))"
| "key_of (JInt i) = Some (KNum (of_int i))"
| "key_of (JFloat (Finite q)) = Some (KNum q)"
| "key_of (JFloat NegZero) = Some (KNum 0)"
| "key_of (JFloat PosInf) = Some KPosInf"
| "key_of (JFloat NegInf) = Some KNegInf"
| "key_of (JFloat NaN) = Some KNaN"
| "key_of (JString s) = Some (KStr s)"
| "key_of (JArray xs) = None"
| "key_of (JObject kvs) = None"

text \<open>
  \<open>a < b\<close> on keys: two strings compare by character codes, two numbers by value
  (every comparison with the NaN is false), and anything else raises \<open>TypeError\<close>.
\<close>

fun py_lt :: "pykey \<Rightarrow> pykey \<Rightarrow> pyerror + bool" where
  "py_lt (KStr a) (KStr b) = Inr (a < b)"
| "py_lt KNone _ = Inl TypeError"
| "py_lt _ KNone = Inl TypeError"
| "py_lt (KStr a) _ = Inl TypeError"
| "py_lt _ (KStr b) = Inl TypeError"
| "py_lt KNaN _ = Inr False"
| "py_lt _ KNaN = Inr False"
| "py_lt (KNum a) (KNum b) = Inr (a < b)"
| "py_lt (KNum a) KPosInf = Inr True"
| "py_lt (KNum a) KNegInf = Inr False"
| "py_lt KPosInf _ = Inr False"
| "py_lt KNegInf KNegInf = Inr False"
| "py_lt KNegInf _ = Inr True"

section \<open>Strings\<close>

text \<open>
  A Python \<open>str\<close> is modelled as a HOL \<open>string\<close>. The order on strings is the
  lexicographic order on character codes, which is how Python compares two \<open>str\<close>.
\<close>

text \<open>
  \<open>s.split(c)\<close> for a separator of one character: the list of the fields between the
  occurrences of \<open>c\<close>. It is never empty, so \<open>s.split(c)[0]\<close> never raises.
\<close>

fun py_split :: "char \<Rightarrow> string \<Rightarrow> string list" where
  "py_split c [] = [[]]"
| "py_split c (x # xs) =
     (if x = c then [] # py_split c xs
      else (case py_split c xs of
              [] \<Rightarrow> [[x]]
            | w # ws \<Rightarrow> (x # w) # ws))"

text \<open>\<open>url.split('?')[0].split('#')[0]\<close>, line 41 of main.py.\<close>

definition normalize_url :: "string \<Rightarrow> string" where
  "normalize_url url = hd (py_split (CHR ''#'') (hd (py_split (CHR ''?'') url)))"

section \<open>The user-agent report\<close>

text \<open>
  \<open>ua_stats[ua] += 1\<close> on a \<open>defaultdict(int)\<close>: the count of the key equal to \<open>ua\<close> goes up
  by one and keeps the key object that was stored first; a new key is added at the end
  with the count 1.
\<close>

fun ua_incr :: "json \<Rightarrow> (json \<times> nat) list \<Rightarrow> (json \<times> nat) list" where
  "ua_incr ua [] = [(ua, 1)]"
| "ua_incr ua ((k, n) # rest) =
     (if key_of k = key_of ua then (k, n + 1) # rest else (k, n) # ua_incr ua rest)"

text \<open>The loop of lines 71 to 73 of main.py, from the statistics collected so far.\<close>

fun ua_count :: "json list \<Rightarrow> (json \<times> nat) list \<Rightarrow> pyerror + (json \<times> nat) list" where
  "ua_count [] stats = Inr stats"
| "ua_count (lg # logs) stats =
     (case py_get lg ''http_user_agent'' (JString ''Unknown'') of
        Inl e \<Rightarrow> Inl e
      | Inr ua \<Rightarrow>
          (case key_of ua of
             None \<Rightarrow> Inl TypeError
           | Some _ \<Rightarrow> ua_count logs (ua_incr ua stats)))"

text \<open>
  \<open>sorted(ua_stats.items())\<close>: the items are pairs whose first components are different
  keys, so two items compare as their keys do. Python's sort is stable and only asks
  whether one element is less than another; it is written as an insertion sort, in which
  an element goes in front of the first one that is not less than it. It raises as soon
  as a comparison does. Where \<open><\<close> is a strict total order on the keys (strings, or numbers
  without the NaN) there is one sorted list and this is it. With the NaN among several
  numeric keys the list CPython returns depends on the steps of its own algorithm, which
  this function does not follow; no property below is about such keys.
\<close>

fun py_insort :: "json \<times> nat \<Rightarrow> (json \<times> nat) list \<Rightarrow> pyerror + (json \<times> nat) list" where
  "py_insort x [] = Inr [x]"
| "py_insort x (y # ys) =
     (case (key_of (fst x), key_of (fst y)) of
        (Some kx, Some ky) \<Rightarrow>
          (case py_lt ky kx of
             Inl e \<Rightarrow> Inl e
           | Inr False \<Rightarrow> Inr (x # y # ys)
           | Inr True \<Rightarrow>
               (case py_insort x ys of Inl e \<Rightarrow> Inl e | Inr zs \<Rightarrow> Inr (y # zs)))
      | _ \<Rightarrow> Inl TypeError)"

fun py_sorted :: "(json \<times> nat) list \<Rightarrow> pyerror + (json \<times> nat) list" where
  "py_sorted [] = Inr []"
| "py_sorted (x # xs) =
     (case py_sorted xs of Inl e \<Rightarrow> Inl e | Inr ys \<Rightarrow> py_insort x ys)"

text \<open>
  \<open>UserAgentReport.generate\<close>: the rows \<open>[ua, count]\<close> and the headers. A row is a list of
  Python values.
\<close>

type_synonym report = "json list list \<times> string list"

definition UserAgentReport_generate :: "json list \<Rightarrow> pyerror + report" where
  "UserAgentReport_generate logs =
     (case ua_count logs [] of
        Inl e \<Rightarrow> Inl e
      | Inr ua_stats \<Rightarrow>
          (case py_sorted ua_stats of
             Inl e \<Rightarrow> Inl e
           | Inr items \<Rightarrow>
               Inr (map (\<lambda>(ua, count). [ua, JInt (int count)]) items,
                    [''User-Agent'', ''Count''])))"

text \<open>
  The user agent a record is counted under, for a record that is a \<open>dict\<close> whose
  \<open>http_user_agent\<close> is a \<open>str\<close> or is missing: the field as it stands, or \<open>Unknown\<close>.
\<close>

definition user_agent :: "json \<Rightarrow> string option" where
  "user_agent lg =
     (case lg of
        JObject kvs \<Rightarrow>
          (case map_of kvs ''http_user_agent'' of
             None \<Rightarrow> Some ''Unknown''
           | Some (JString s) \<Rightarrow> Some s
           | Some _ \<Rightarrow> None)
      | _ \<Rightarrow> None)"

text \<open>
  The same counting on items whose keys are known to be strings; the proofs go through
  it.
\<close>

fun str_incr :: "string \<Rightarrow> (string \<times> nat) list \<Rightarrow> (string \<times> nat) list" where
  "str_incr u [] = [(u, 1)]"
| "str_incr u ((k, n) # rest) =
     (if k = u then (k, n + 1) # rest else (k, n) # str_incr u rest)"

abbreviation str_items :: "(string \<times> nat) list \<Rightarrow> (json \<times> nat) list" where
  "str_items \<equiv> map (\<lambda>(u, n). (JString u, n))"

section \<open>Floating point\<close>

text \<open>The number of binary digits of a positive integer (\<open>int.bit_length\<close>).\<close>

function bit_length :: "int \<Rightarrow> int" where
  "bit_length n = (if n \<le> 0 then 0 else 1 + bit_length (n div 2))"
  by pat_completeness auto
termination
  by (relation "measure nat") auto

declare bit_length.simps [simp del]

text \<open>For a positive rational \<open>a\<close>, the integer \<open>k\<close> with \<open>2 ^ k \<le> a < 2 ^ (k + 1)\<close>.\<close>

definition ilog2 :: "rat \<Rightarrow> int" where
  "ilog2 a =
     (if 1 \<le> a then bit_length \<lfloor>a\<rfloor> - 1
      else - bit_length (\<lceil>1 / a\<rceil> - 1))"

text \<open>The nearest integer, a tie going to the even one.\<close>

definition round_half_even :: "rat \<Rightarrow> int" where
  "round_half_even x =
     (let f = \<lfloor>x\<rfloor>; r = x - of_int f
      in if r < 1 / 2 then f
         else if 1 / 2 < r then f + 1
         else if even f then f else f + 1)"

text \<open>\<open>2 ^ e\<close> for an integer \<open>e\<close> of either sign.\<close>

definition pow2 :: "int \<Rightarrow> rat" where
  "pow2 e = (if 0 \<le> e then of_int (2 ^ nat e) else 1 / of_int (2 ^ nat (- e)))"

text \<open>
  The binary64 value nearest to a rational, ties to even: 53 significant bits, exponents
  down to the subnormals, an infinity when the rounded value \<open>m * 2 ^ e\<close> reaches \<open>2 ^ 1024\<close>
  (that is, when \<open>m\<close> has more than \<open>1024 - e\<close> binary digits), and a zero that keeps the sign.
\<close>

definition round_double :: "rat \<Rightarrow> pyfloat" where
  "round_double q =
     (if q = 0 then Finite 0
      else
        let a = \<bar>q\<bar>;
            e = max (ilog2 a) (- 1022) - 52;
            p = pow2 e;
            m = round_half_even (a / p);
            r = of_int m * p
        in if 1024 < bit_length m + e then (if q < 0 then NegInf else PosInf)
           else if m = 0 then (if q < 0 then NegZero else Finite 0)
           else Finite (if q < 0 then - r else r))"

text \<open>The sign bit of a float that is not the NaN.\<close>

fun is_negative :: "pyfloat \<Rightarrow> bool" where
  "is_negative (Finite a) = (a < 0)"
| "is_negative NegZero = True"
| "is_negative NegInf = True"
| "is_negative PosInf = False"
| "is_negative NaN = False"

fun is_infinite :: "pyfloat \<Rightarrow> bool" where
  "is_infinite PosInf = True"
| "is_infinite NegInf = True"
| "is_infinite _ = False"

fun is_zero :: "pyfloat \<Rightarrow> bool" where
  "is_zero (Finite a) = (a = 0)"
| "is_zero NegZero = True"
| "is_zero _ = False"

text \<open>The rational a finite float denotes.\<close>

fun float_value :: "pyfloat \<Rightarrow> rat" where
  "float_value (Finite a) = a"
| "float_value _ = 0"

definition signed_zero :: "bool \<Rightarrow> pyfloat" where
  "signed_zero neg = (if neg then NegZero else Finite 0)"

definition signed_inf :: "bool \<Rightarrow> pyfloat" where
  "signed_inf neg = (if neg then NegInf else PosInf)"

text \<open>\<open>x + y\<close> on floats.\<close>

definition float_add :: "pyfloat \<Rightarrow> pyfloat \<Rightarrow> pyfloat" where
  "float_add x y =
     (if x = NaN \<or> y = NaN then NaN
      else if is_infinite x then (if is_infinite y \<and> x \<noteq> y then NaN else x)
      else if is_infinite y then y
      else if is_zero x \<and> is_zero y then signed_zero (is_negative x \<and> is_negative y)
      else round_double (float_value x + float_value y))"

text \<open>\<open>x / y\<close> on floats, for a divisor that is not zero.\<close>

definition float_div :: "pyfloat \<Rightarrow> pyfloat \<Rightarrow> pyfloat" where
  "float_div x y =
     (if x = NaN \<or> y = NaN then NaN
      else if is_infinite x then
        (if is_infinite y then NaN else signed_inf (is_negative x \<noteq> is_negative y))
      else if is_infinite y \<or> is_zero x then signed_zero (is_negative x \<noteq> is_negative y)
      else round_double (float_value x / float_value y))"

text \<open>Python raises on a zero divisor.\<close>

definition float_truediv :: "pyfloat \<Rightarrow> pyfloat \<Rightarrow> pyerror + pyfloat" where
  "float_truediv x y = (if is_zero y then Inl ZeroDivisionError else Inr (float_div x y))"

text \<open>
  The conversion of an \<open>int\<close> to a float: the nearest float, and \<open>OverflowError\<close> for an
  \<open>int\<close> too large.
\<close>

definition float_of_int :: "int \<Rightarrow> pyerror + pyfloat" where
  "float_of_int i =
     (let f = round_double (of_int i)
      in if is_infinite f then Inl OverflowError else Inr f)"

text \<open>\<open>x / n\<close> for a float \<open>x\<close> and an \<open>int\<close> \<open>n\<close>: the \<open>int\<close> is converted first.\<close>

definition float_div_int :: "pyfloat \<Rightarrow> int \<Rightarrow> pyerror + pyfloat" where
  "float_div_int x n =
     (case float_of_int n of Inl e \<Rightarrow> Inl e | Inr d \<Rightarrow> float_truediv x d)"

text \<open>Decimal digits.\<close>

definition digit_char :: "int \<Rightarrow> char" where
  "digit_char d = char_of (48 + d)"

text \<open>The decimal digits of an integer that is not negative.\<close>

function show_nat :: "int \<Rightarrow> string" where
  "show_nat n = (if n < 10 then [digit_char n] else show_nat (n div 10) @ [digit_char (n mod 10)])"
  by pat_completeness auto
termination
  by (relation "measure nat") auto

declare show_nat.simps [simp del]

text \<open>
  \<open>f"{x:.3f}"\<close>: the exact value rounded to three decimals, ties to even, written with
  the sign, the integer part, a point and three digits; \<open>inf\<close>, \<open>-inf\<close> and \<open>nan\<close> otherwise.
\<close>

definition format_3f :: "pyfloat \<Rightarrow> string" where
  "format_3f x =
     (case x of
        NaN \<Rightarrow> ''nan''
      | PosInf \<Rightarrow> ''inf''
      | NegInf \<Rightarrow> ''-inf''
      | NegZero \<Rightarrow> ''-0.000''
      | Finite a \<Rightarrow>
          (let n = round_half_even (\<bar>a\<bar> * 1000)
           in (if a < 0 then ''-'' else '''') @ show_nat (n div 1000) @ ''.'' @
              [digit_char (n div 100 mod 10), digit_char (n div 10 mod 10), digit_char (n mod 10)]))"

section \<open>The library\<close>

text \<open>
  A \<open>datetime.date\<close> and a \<open>datetime.datetime\<close>. The offset of an aware \<open>datetime\<close> from
  UTC is in microseconds; a naive one has none. \<open>dt.date()\<close> is the field \<open>date_part\<close>: the
  year, month and day as they were parsed.
\<close>

record date =
  year :: int
  month :: int
  day :: int

record datetime =
  date_part :: date
  hour :: int
  minute :: int
  second :: int
  microsecond :: int
  utcoffset :: "int option"

text \<open>
  The parsers of the standard library and the table formatter are parameters of the
  model: what the program does with their results is the same whatever they accept.
  \<^item> \<open>json_loads\<close> is \<open>json.loads\<close>; it raises \<open>JSONDecodeError\<close> on a line that is not JSON;
  \<^item> \<open>strptime_ymd s\<close> is \<open>datetime.strptime(s, "%Y-%m-%d").date()\<close>, \<open>None\<close> when it raises
    \<open>ValueError\<close>;
  \<^item> \<open>fromisoformat\<close> is \<open>datetime.fromisoformat\<close> on a \<open>str\<close>, \<open>None\<close> when it raises
    \<open>ValueError\<close>;
  \<^item> \<open>float_of_str\<close> is \<open>float\<close> on a \<open>str\<close>, \<open>None\<close> when it raises \<open>ValueError\<close>;
  \<^item> \<open>tabulate_grid rows headers\<close> is \<open>tabulate(rows, headers=headers, tablefmt="grid")\<close>.
\<close>

record pylib =
  json_loads :: "string \<Rightarrow> pyerror + json"
  strptime_ymd :: "string \<Rightarrow> date option"
  fromisoformat :: "string \<Rightarrow> datetime option"
  float_of_str :: "string \<Rightarrow> pyfloat option"
  tabulate_grid :: "json list list \<Rightarrow> string list \<Rightarrow> string"

text \<open>\<open>datetime.fromisoformat(v)\<close> for a Python value: the argument must be a \<open>str\<close>.\<close>

definition py_fromisoformat :: "pylib \<Rightarrow> json \<Rightarrow> pyerror + datetime" where
  "py_fromisoformat L v =
     (case v of
        JString s \<Rightarrow> (case fromisoformat L s of None \<Rightarrow> Inl ValueError | Some dt \<Rightarrow> Inr dt)
      | _ \<Rightarrow> Inl TypeError)"

text \<open>
  \<open>float(v)\<close> for a Python value: a \<open>float\<close> is itself, an \<open>int\<close> or a \<open>bool\<close> is converted,
  a \<open>str\<close> is parsed, anything else is a \<open>TypeError\<close>.
\<close>

definition py_float :: "pylib \<Rightarrow> json \<Rightarrow> pyerror + pyfloat" where
  "py_float L v =
     (case v of
        JFloat f \<Rightarrow> Inr f
      | JInt i \<Rightarrow> float_of_int i
      | JBool b \<Rightarrow> Inr (Finite (if b then 1 else 0))
      | JString s \<Rightarrow> (case float_of_str L s of None \<Rightarrow> Inl ValueError | Some f \<Rightarrow> Inr f)
      | _ \<Rightarrow> Inl TypeError)"

text \<open>
  \<open>str.isspace\<close> on one character, and \<open>s.strip()\<close>: the characters below 256 that Python
  counts as whitespace are the codes 9 to 13, 28 to 32, 133 and 160.
\<close>

definition py_isspace :: "char \<Rightarrow> bool" where
  "py_isspace c =
     (let n = (of_char c :: nat)
      in (9 \<le> n \<and> n \<le> 13) \<or> (28 \<le> n \<and> n \<le> 32) \<or> n = 133 \<or> n = 160)"

definition py_strip :: "string \<Rightarrow> string" where
  "py_strip s = rev (dropWhile py_isspace (rev (dropWhile py_isspace s)))"

section \<open>Reading the logs\<close>

text \<open>
  The files: \<open>fs p\<close> is the list of the lines \<open>for line in f\<close> yields for the file at \<open>p\<close>
  (a line keeps its newline), or \<open>None\<close> when \<open>open(p, "r")\<close> raises \<open>OSError\<close>. A file that
  opens is taken to be text in the encoding it is read with.
\<close>

type_synonym filesystem = "string \<Rightarrow> string list option"

text \<open>
  What a run has done so far: the texts printed to standard output, one for each call
  of \<open>print\<close>, and the paths of the files opened, in order.
\<close>

record io =
  stdout :: "string list"
  opened :: "string list"

definition print :: "string \<Rightarrow> io \<Rightarrow> io" where
  "print text st = st\<lparr>stdout := stdout st @ [text]\<rparr>"

text \<open>
  Line 115 of main.py: the filter is parsed only when \<open>date_filter\<close> is true, that is
  neither \<open>None\<close> nor the empty string.
\<close>

definition parse_date_filter :: "pylib \<Rightarrow> string option \<Rightarrow> pyerror + date option" where
  "parse_date_filter L date_filter =
     (case date_filter of
        None \<Rightarrow> Inr None
      | Some s \<Rightarrow>
          (if s = [] then Inr None
           else (case strptime_ymd L s of
                   None \<Rightarrow> Inl ValueError
                 | Some d \<Rightarrow> Inr (Some d))))"

text \<open>
  The body of the loop over the lines, lines 120 to 128: the record is kept, dropped by
  the date filter, skipped with a message, or an exception leaves the loop. Only
  \<open>JSONDecodeError\<close> is caught.
\<close>

datatype line_result = Keep json | Drop | Skip string | Raise pyerror

definition read_line :: "pylib \<Rightarrow> date option \<Rightarrow> string \<Rightarrow> line_result" where
  "read_line L date_filter line =
     (case json_loads L line of
        Inl e \<Rightarrow>
          (if e = JSONDecodeError
           then Skip (''Skipping invalid JSON line: '' @ py_strip line)
           else Raise e)
      | Inr lg \<Rightarrow>
          (case date_filter of
             None \<Rightarrow> Keep lg
           | Some d \<Rightarrow>
               (case py_getitem lg ''@timestamp'' of
                  Inl e \<Rightarrow> Raise e
                | Inr ts \<Rightarrow>
                    (case py_fromisoformat L ts of
                       Inl e \<Rightarrow> Raise e
                     | Inr dt \<Rightarrow> if date_part dt \<noteq> d then Drop else Keep lg))))"

text \<open>The loop over the lines of one file, from the records and the output so far.\<close>

fun read_lines ::
  "pylib \<Rightarrow> date option \<Rightarrow> string list \<Rightarrow> json list \<Rightarrow> io \<Rightarrow> io \<times> (pyerror + json list)"
where
  "read_lines L date_filter [] logs st = (st, Inr logs)"
| "read_lines L date_filter (line # rest) logs st =
     (case read_line L date_filter line of
        Keep lg \<Rightarrow> read_lines L date_filter rest (logs @ [lg]) st
      | Drop \<Rightarrow> read_lines L date_filter rest logs st
      | Skip msg \<Rightarrow> read_lines L date_filter rest logs (print msg st)
      | Raise e \<Rightarrow> (st, Inl e))"

text \<open>The loop over the paths, lines 117 to 128.\<close>

fun read_files ::
  "pylib \<Rightarrow> filesystem \<Rightarrow> date option \<Rightarrow> string list \<Rightarrow> json list \<Rightarrow> io
   \<Rightarrow> io \<times> (pyerror + json list)"
where
  "read_files L fs date_filter [] logs st = (st, Inr logs)"
| "read_files L fs date_filter (p # ps) logs st =
     (case fs p of
        None \<Rightarrow> (st, Inl OSError)
      | Some lines \<Rightarrow>
          (case read_lines L date_filter lines logs (st\<lparr>opened := opened st @ [p]\<rparr>) of
             (st', Inl e) \<Rightarrow> (st', Inl e)
           | (st', Inr logs') \<Rightarrow> read_files L fs date_filter ps logs' st'))"

definition read_logs ::
  "pylib \<Rightarrow> filesystem \<Rightarrow> string list \<Rightarrow> string option \<Rightarrow> io \<Rightarrow> io \<times> (pyerror + json list)"
where
  "read_logs L fs file_paths date_filter st =
     (case parse_date_filter L date_filter of
        Inl e \<Rightarrow> (st, Inl e)
      | Inr d \<Rightarrow> read_files L fs d file_paths [] st)"

section \<open>The average report\<close>

text \<open>
  Line 41 of main.py, \<open>log["url"].split('?')[0].split('#')[0]\<close>: the record must be a
  \<open>dict\<close> with the key \<open>url\<close>, and only a \<open>str\<close> has the method \<open>split\<close>.
\<close>

definition log_endpoint :: "json \<Rightarrow> pyerror + string" where
  "log_endpoint lg =
     (case py_getitem lg ''url'' of
        Inl e \<Rightarrow> Inl e
      | Inr (JString url) \<Rightarrow> Inr (normalize_url url)
      | Inr _ \<Rightarrow> Inl AttributeError)"

text \<open>Line 42, \<open>float(log["response_time"])\<close>.\<close>

definition log_time :: "pylib \<Rightarrow> json \<Rightarrow> pyerror + pyfloat" where
  "log_time L lg =
     (case py_getitem lg ''response_time'' of
        Inl e \<Rightarrow> Inl e
      | Inr v \<Rightarrow> py_float L v)"

text \<open>
  \<open>endpoint_stats\<close>: the items \<open>(endpoint, count, total_time)\<close> in insertion order. Lines 43
  and 44 on a \<open>defaultdict\<close>: a new endpoint starts from the count 0 and the total 0, and
  \<open>0 + time\<close> is the float sum of \<open>0.0\<close> and \<open>time\<close>.
\<close>

type_synonym endpoint_stats = "(string \<times> nat \<times> pyfloat) list"

fun stats_add :: "string \<Rightarrow> pyfloat \<Rightarrow> endpoint_stats \<Rightarrow> endpoint_stats" where
  "stats_add ep t [] = [(ep, 1, float_add (Finite 0) t)]"
| "stats_add ep t ((k, c, tot) # rest) =
     (if k = ep then (k, c + 1, float_add tot t) # rest
      else (k, c, tot) # stats_add ep t rest)"

text \<open>The loop of lines 39 to 44.\<close>

fun collect_stats :: "pylib \<Rightarrow> json list \<Rightarrow> endpoint_stats \<Rightarrow> pyerror + endpoint_stats" where
  "collect_stats L [] stats = Inr stats"
| "collect_stats L (lg # logs) stats =
     (case log_endpoint lg of
        Inl e \<Rightarrow> Inl e
      | Inr ep \<Rightarrow>
          (case log_time L lg of
             Inl e \<Rightarrow> Inl e
           | Inr t \<Rightarrow> collect_stats L logs (stats_add ep t stats)))"

text \<open>
  The loop of lines 47 to 49: a row \<open>(endpoint, count, f"{avg_time:.3f}")\<close> for each
  endpoint, where \<open>avg_time\<close> is the float \<open>total_time\<close> divided by the \<open>int\<close> \<open>count\<close>.
\<close>

fun average_rows :: "endpoint_stats \<Rightarrow> pyerror + (string \<times> nat \<times> string) list" where
  "average_rows [] = Inr []"
| "average_rows ((ep, c, tot) # rest) =
     (case float_div_int tot (int c) of
        Inl e \<Rightarrow> Inl e
      | Inr avg_time \<Rightarrow>
          (case average_rows rest of
             Inl e \<Rightarrow> Inl e
           | Inr rows \<Rightarrow> Inr ((ep, c, format_3f avg_time) # rows)))"

text \<open>
  \<open>AverageReport.generate\<close>. The rows are sorted by their first entry, a \<open>str\<close>, with
  Python's stable sort.
\<close>

definition AverageReport_generate :: "pylib \<Rightarrow> json list \<Rightarrow> pyerror + report" where
  "AverageReport_generate L logs =
     (case collect_stats L logs [] of
        Inl e \<Rightarrow> Inl e
      | Inr stats \<Rightarrow>
          (case average_rows stats of
             Inl e \<Rightarrow> Inl e
           | Inr rows \<Rightarrow>
               Inr (map (\<lambda>(ep, c, avg). [JString ep, JInt (int c), JString avg])
                      (sort_key fst rows),
                    [''Endpoint'', ''Count'', ''Average Time''])))"

text \<open>
  What the report reads in a record that is a \<open>dict\<close> with a \<open>str\<close> under \<open>url\<close> and, under
  \<open>response_time\<close>, a value \<open>float\<close> accepts: the endpoint and the time. The observations of
  a list of records are those of its records, in order.
\<close>

definition observation :: "pylib \<Rightarrow> json \<Rightarrow> (string \<times> pyfloat) option" where
  "observation L lg =
     (case log_endpoint lg of
        Inl e \<Rightarrow> None
      | Inr ep \<Rightarrow> (case log_time L lg of Inl e \<Rightarrow> None | Inr t \<Rightarrow> Some (ep, t)))"

definition observations :: "pylib \<Rightarrow> json list \<Rightarrow> (string \<times> pyfloat) list" where
  "observations L logs = List.map_filter (observation L) logs"

text \<open>
  The times observed for an endpoint, in order; the float sum of a list of times, from
  \<open>0.0\<close> and from left to right; and the row of an endpoint: the endpoint, the number of its
  times and their sum divided by that number, with three decimals.
\<close>

definition times_of :: "string \<Rightarrow> (string \<times> pyfloat) list \<Rightarrow> pyfloat list" where
  "times_of ep obs = map snd (filter (\<lambda>p. fst p = ep) obs)"

definition float_sum :: "pyfloat list \<Rightarrow> pyfloat" where
  "float_sum ts = foldl float_add (Finite 0) ts"

definition endpoint_row :: "(string \<times> pyfloat) list \<Rightarrow> string \<Rightarrow> json list" where
  "endpoint_row obs ep =
     (let ts = times_of ep obs
      in [JString ep, JInt (int (length ts)),
          JString (format_3f (float_div (float_sum ts) (Finite (of_nat (length ts)))))])"

section \<open>The program\<close>

text \<open>The two strategies, and the lookup of \<open>get_report_strategy\<close>.\<close>

datatype strategy = AverageReport | UserAgentReport

definition generate :: "pylib \<Rightarrow> strategy \<Rightarrow> json list \<Rightarrow> pyerror + report" where
  "generate L s logs =
     (case s of
        AverageReport \<Rightarrow> AverageReport_generate L logs
      | UserAgentReport \<Rightarrow> UserAgentReport_generate logs)"

definition get_report_strategy :: "string \<Rightarrow> strategy option" where
  "get_report_strategy report_type =
     map_of [(''average'', AverageReport), (''user_agent'', UserAgentReport)] report_type"

text \<open>
  The command line as \<open>argparse\<close> reads it: the values given to \<open>--file\<close>, to \<open>--report\<close> and
  to \<open>--date\<close>, \<open>None\<close> for an option that is not given. \<open>parse_args\<close> checks what the
  parser of lines 89 to 100 declares: \<open>--report\<close> takes one of the two \<open>choices\<close>, and
  \<open>--file\<close> (with at least one value) and \<open>--report\<close> are required. A command line that
  fails a check ends the process with the status 2, after a message on standard error.
  The fields \<open>arg_file\<close>, \<open>arg_report\<close> and \<open>arg_date\<close> are \<open>args.file\<close>, \<open>args.report\<close> and
  \<open>args.date\<close>.
\<close>

record command_line =
  file_values :: "string list option"
  report_value :: "string option"
  date_value :: "string option"

record args =
  arg_file :: "string list"
  arg_report :: string
  arg_date :: "string option"

definition parse_args :: "command_line \<Rightarrow> pyerror + args" where
  "parse_args cl =
     (case report_value cl of
        None \<Rightarrow> Inl (SystemExit 2)
      | Some r \<Rightarrow>
          (if r \<notin> set [''average'', ''user_agent''] then Inl (SystemExit 2)
           else (case file_values cl of
                   None \<Rightarrow> Inl (SystemExit 2)
                 | Some ps \<Rightarrow>
                     (if ps = [] then Inl (SystemExit 2)
                      else Inr \<lparr>arg_file = ps, arg_report = r, arg_date = date_value cl\<rparr>))))"

text \<open>Lines 151 to 158 of \<open>main\<close>, from the parsed arguments.\<close>

definition run :: "pylib \<Rightarrow> filesystem \<Rightarrow> args \<Rightarrow> io \<Rightarrow> io \<times> (pyerror + unit)" where
  "run L fs a st =
     (case read_logs L fs (arg_file a) (arg_date a) st of
        (st', Inl e) \<Rightarrow> (st', Inl e)
      | (st', Inr logs) \<Rightarrow>
          (case get_report_strategy (arg_report a) of
             None \<Rightarrow> (st', Inl ValueError)
           | Some strategy \<Rightarrow>
               (case generate L strategy logs of
                  Inl e \<Rightarrow> (st', Inl e)
                | Inr (report_data, headers) \<Rightarrow>
                    (print (tabulate_grid L report_data headers) st', Inr ()))))"

definition main :: "pylib \<Rightarrow> filesystem \<Rightarrow> command_line \<Rightarrow> io \<Rightarrow> io \<times> (pyerror + unit)" where
  "main L fs cl st =
     (case parse_args cl of
        Inl e \<Rightarrow> (st, Inl e)
      | Inr a \<Rightarrow> run L fs a st)"

section \<open>An instance of the library\<close>

text \<open>
  The theorems below hold for every library. To run the program on concrete files, this
  section writes one out, after CPython's \<open>json\<close> decoder, \<open>float\<close> and \<open>datetime\<close>, for text
  whose characters are below 256.
\<close>

definition is_digit :: "char \<Rightarrow> bool" where
  "is_digit c = (CHR ''0'' \<le> c \<and> c \<le> CHR ''9'')"

definition digit_val :: "char \<Rightarrow> int" where
  "digit_val c = of_char c - 48"

definition digits_val :: "string \<Rightarrow> int" where
  "digits_val s = foldl (\<lambda>n c. 10 * n + digit_val c) 0 s"

text \<open>\<open>n * 10 ^ k\<close> for an integer \<open>k\<close> of either sign.\<close>

definition scale10 :: "int \<Rightarrow> int \<Rightarrow> rat" where
  "scale10 n k = (if 0 \<le> k then of_int (n * 10 ^ nat k) else of_int n / of_int (10 ^ nat (- k)))"

text \<open>The float nearest to a decimal number with a sign; a zero keeps the sign.\<close>

definition decimal_float :: "bool \<Rightarrow> int \<Rightarrow> int \<Rightarrow> pyfloat" where
  "decimal_float neg n k =
     (if n = 0 then signed_zero neg
      else round_double (if neg then - scale10 n k else scale10 n k))"

text \<open>An optional sign.\<close>

definition take_sign :: "string \<Rightarrow> bool \<times> string" where
  "take_sign s =
     (case s of
        c # r \<Rightarrow> if c = CHR ''-'' then (True, r) else if c = CHR ''+'' then (False, r) else (False, s)
      | [] \<Rightarrow> (False, s))"

text \<open>
  An exponent part \<open>e\<close>, sign, digits at the head of a string: its value and the rest, or
  \<open>None\<close> when the string does not start with a complete one.
\<close>

definition take_exponent :: "string \<Rightarrow> (int \<times> string) option" where
  "take_exponent s =
     (case s of
        c # r \<Rightarrow>
          (if c = CHR ''e'' \<or> c = CHR ''E'' then
             (let (neg, r') = take_sign r; ds = takeWhile is_digit r'
              in if ds = [] then None
                 else Some ((if neg then - digits_val ds else digits_val ds),
                            dropWhile is_digit r'))
           else None)
      | [] \<Rightarrow> None)"

subsection \<open>\<open>float\<close> on a string\<close>

text \<open>
  \<open>float(s)\<close>: whitespace around the number is ignored, an underscore may stand between
  two digits, and the number is \<open>inf\<close>, \<open>infinity\<close> or \<open>nan\<close> in any case, or digits with an
  optional point and exponent, after an optional sign.
\<close>

definition float_space :: "char \<Rightarrow> bool" where
  "float_space c =
     (let n = (of_char c :: nat) in (9 \<le> n \<and> n \<le> 13) \<or> n = 32 \<or> n = 133 \<or> n = 160)"

definition lower :: "char \<Rightarrow> char" where
  "lower c = (if CHR ''A'' \<le> c \<and> c \<le> CHR ''Z'' then char_of (of_char c + (32 :: nat)) else c)"

fun drop_underscores :: "char \<Rightarrow> string \<Rightarrow> string option" where
  "drop_underscores prev [] = (if prev = CHR ''_'' then None else Some [])"
| "drop_underscores prev (c # cs) =
     (if c = CHR ''_'' then
        (if is_digit prev then drop_underscores c cs else None)
      else if prev = CHR ''_'' \<and> \<not> is_digit c then None
      else map_option ((#) c) (drop_underscores c cs))"

definition float_digits :: "bool \<Rightarrow> string \<Rightarrow> pyfloat option" where
  "float_digits neg s =
     (let ip = takeWhile is_digit s; r1 = dropWhile is_digit s;
          (fp, r2) = (case r1 of
                        c # t \<Rightarrow> if c = CHR ''.'' then (takeWhile is_digit t, dropWhile is_digit t)
                                 else ([], r1)
                      | [] \<Rightarrow> ([], r1))
      in if ip = [] \<and> fp = [] then None
         else if r2 = [] then Some (decimal_float neg (digits_val (ip @ fp)) (- int (length fp)))
         else (case take_exponent r2 of
                 Some (ex, []) \<Rightarrow>
                   Some (decimal_float neg (digits_val (ip @ fp)) (ex - int (length fp)))
               | _ \<Rightarrow> None))"

definition sample_float_of_str :: "string \<Rightarrow> pyfloat option" where
  "sample_float_of_str s =
     (case drop_underscores (CHR 0x00)
             (rev (dropWhile float_space (rev (dropWhile float_space s)))) of
        None \<Rightarrow> None
      | Some t \<Rightarrow>
          (let (neg, body) = take_sign t; word = map lower body
           in if word = ''inf'' \<or> word = ''infinity'' then Some (signed_inf neg)
              else if word = ''nan'' then Some NaN
              else float_digits neg body))"

subsection \<open>\<open>json.loads\<close>\<close>

definition json_space :: "char \<Rightarrow> bool" where
  "json_space c = (c = CHR '' '' \<or> c = CHR 0x09 \<or> c = CHR 0x0A \<or> c = CHR 0x0D)"

definition skip_ws :: "string \<Rightarrow> string" where
  "skip_ws s = dropWhile json_space s"

definition hex_val :: "char \<Rightarrow> nat option" where
  "hex_val c =
     (if is_digit c then Some (of_char c - 48)
      else if CHR ''a'' \<le> c \<and> c \<le> CHR ''f'' then Some (of_char c - 87)
      else if CHR ''A'' \<le> c \<and> c \<le> CHR ''F'' then Some (of_char c - 55)
      else None)"

text \<open>
  The escape \<open>\<^verbatim>\<open>\u\<close>\<close> with four hexadecimal digits, for a character below 256. A character
  from 256 on has no counterpart in the model: the decoder gives up on it, which
  \<open>json.loads\<close> does not.
\<close>

definition unicode_escape :: "char \<Rightarrow> char \<Rightarrow> char \<Rightarrow> char \<Rightarrow> char option" where
  "unicode_escape a b c d =
     (case (hex_val a, hex_val b, hex_val c, hex_val d) of
        (Some h3, Some h2, Some h1, Some h0) \<Rightarrow>
          (if h3 = 0 \<and> h2 = 0 then Some (char_of (16 * h1 + h0)) else None)
      | _ \<Rightarrow> None)"

definition simple_escape :: "char \<Rightarrow> char option" where
  "simple_escape c =
     (if c = CHR 0x22 \<or> c = CHR 0x5C \<or> c = CHR ''/'' then Some c
      else if c = CHR ''b'' then Some (CHR 0x08)
      else if c = CHR ''f'' then Some (CHR 0x0C)
      else if c = CHR ''n'' then Some (CHR 0x0A)
      else if c = CHR ''r'' then Some (CHR 0x0D)
      else if c = CHR ''t'' then Some (CHR 0x09)
      else None)"

text \<open>
  The text of a string after its opening quote: the characters up to the closing quote,
  with the escapes replaced, and what follows it. A control character is refused.
\<close>

fun scan_string :: "string \<Rightarrow> (string \<times> string) option" where
  "scan_string [] = None"
| "scan_string (c # cs) =
     (if c = CHR 0x22 then Some ([], cs)
      else if c = CHR 0x5C then
        (case cs of
           [] \<Rightarrow> None
         | e # r \<Rightarrow>
             (if e = CHR ''u'' then
                (case r of
                   a # b # c' # d # r' \<Rightarrow>
                     (case unicode_escape a b c' d of
                        None \<Rightarrow> None
                      | Some x \<Rightarrow>
                          (case scan_string r' of
                             None \<Rightarrow> None
                           | Some (str, rest) \<Rightarrow> Some (x # str, rest)))
                 | _ \<Rightarrow> None)
              else
                (case simple_escape e of
                   None \<Rightarrow> None
                 | Some x \<Rightarrow>
                     (case scan_string r of
                        None \<Rightarrow> None
                      | Some (str, rest) \<Rightarrow> Some (x # str, rest)))))
      else if (of_char c :: nat) < 32 then None
      else (case scan_string cs of
              None \<Rightarrow> None
            | Some (str, rest) \<Rightarrow> Some (c # str, rest)))"

text \<open>
  A number at the head of a string, as the decoder's pattern reads it: an integer part
  without a leading zero, then a fraction and an exponent when they are complete. With
  neither it is an \<open>int\<close>, otherwise a \<open>float\<close>.
\<close>

definition take_number :: "string \<Rightarrow> (json \<times> string) option" where
  "take_number s =
     (let (neg, s1) = (case s of c # r \<Rightarrow> if c = CHR ''-'' then (True, r) else (False, s)
                       | [] \<Rightarrow> (False, s))
      in case s1 of
           [] \<Rightarrow> None
         | c # r \<Rightarrow>
             (if \<not> is_digit c then None
              else
                let (ip, r1) = (if c = CHR ''0'' then ([c], r)
                                else (c # takeWhile is_digit r, dropWhile is_digit r));
                    (fp, r2) = (case r1 of
                                  p # d # t \<Rightarrow>
                                    if p = CHR ''.'' \<and> is_digit d
                                    then (d # takeWhile is_digit t, dropWhile is_digit t)
                                    else ([], r1)
                                | _ \<Rightarrow> ([], r1))
                in case take_exponent r2 of
                     Some (ex, r3) \<Rightarrow>
                       Some (JFloat (decimal_float neg (digits_val (ip @ fp)) (ex - int (length fp))), r3)
                   | None \<Rightarrow>
                       (if fp = [] then
                          Some (JInt (if neg then - digits_val ip else digits_val ip), r2)
                        else
                          Some (JFloat (decimal_float neg (digits_val (ip @ fp)) (- int (length fp))), r2))))"

text \<open>A word at the head of a string.\<close>

definition take_word :: "string \<Rightarrow> string \<Rightarrow> string option" where
  "take_word w s = (if take (length w) s = w then Some (drop (length w) s) else None)"

text \<open>The values that are neither a string, an array nor an object, in the decoder's order.\<close>

definition take_scalar :: "string \<Rightarrow> (json \<times> string) option" where
  "take_scalar s =
     (case take_word ''null'' s of Some r \<Rightarrow> Some (JNull, r) | None \<Rightarrow>
      case take_word ''true'' s of Some r \<Rightarrow> Some (JBool True, r) | None \<Rightarrow>
      case take_word ''false'' s of Some r \<Rightarrow> Some (JBool False, r) | None \<Rightarrow>
      case take_number s of Some x \<Rightarrow> Some x | None \<Rightarrow>
      case take_word ''NaN'' s of Some r \<Rightarrow> Some (JFloat NaN, r) | None \<Rightarrow>
      case take_word ''Infinity'' s of Some r \<Rightarrow> Some (JFloat PosInf, r) | None \<Rightarrow>
      case take_word ''-Infinity'' s of Some r \<Rightarrow> Some (JFloat NegInf, r) | None \<Rightarrow> None)"

text \<open>\<open>dict(pairs)\<close> keeps one item for a key: the place of the first, the value of the last.\<close>

fun dict_set :: "string \<Rightarrow> json \<Rightarrow> (string \<times> json) list \<Rightarrow> (string \<times> json) list" where
  "dict_set k v [] = [(k, v)]"
| "dict_set k v ((k', v') # kvs) =
     (if k' = k then (k, v) # kvs else (k', v') # dict_set k v kvs)"

text \<open>
  The decoder proper, by recursive descent. The first argument bounds the number of nested
  calls; \<open>sample_json_loads\<close> starts it with more than the length of the text, and each
  call reads at least one character.
\<close>

fun parse_value :: "nat \<Rightarrow> string \<Rightarrow> (json \<times> string) option"
  and parse_array :: "nat \<Rightarrow> json list \<Rightarrow> string \<Rightarrow> (json \<times> string) option"
  and parse_object :: "nat \<Rightarrow> (string \<times> json) list \<Rightarrow> string \<Rightarrow> (json \<times> string) option"
where
  "parse_value 0 s = None"
| "parse_value (Suc n) s =
     (case s of
        [] \<Rightarrow> None
      | c # r \<Rightarrow>
          (if c = CHR 0x22 then
             (case scan_string r of None \<Rightarrow> None | Some (str, r') \<Rightarrow> Some (JString str, r'))
           else if c = CHR ''{'' then
             (case skip_ws r of
                [] \<Rightarrow> None
              | c' # r' \<Rightarrow>
                  (if c' = CHR ''}'' then Some (JObject [], r')
                   else if c' = CHR 0x22 then parse_object n [] r'
                   else None))
           else if c = CHR ''['' then
             (case skip_ws r of
                [] \<Rightarrow> None
              | c' # r' \<Rightarrow>
                  (if c' = CHR '']'' then Some (JArray [], r')
                   else parse_array n [] (c' # r')))
           else take_scalar s))"
| "parse_array 0 acc s = None"
| "parse_array (Suc n) acc s =
     (case parse_value n s of
        None \<Rightarrow> None
      | Some (v, r) \<Rightarrow>
          (case skip_ws r of
             [] \<Rightarrow> None
           | c # r' \<Rightarrow>
               (if c = CHR '']'' then Some (JArray (acc @ [v]), r')
                else if c = CHR '','' then parse_array n (acc @ [v]) (skip_ws r')
                else None)))"
| "parse_object 0 acc s = None"
| "parse_object (Suc n) acc s =
     (case scan_string s of
        None \<Rightarrow> None
      | Some (k, r) \<Rightarrow>
          (case skip_ws r of
             [] \<Rightarrow> None
           | c # r1 \<Rightarrow>
               (if c \<noteq> CHR '':'' then None
                else
                  (case parse_value n (skip_ws r1) of
                     None \<Rightarrow> None
                   | Some (v, r2) \<Rightarrow>
                       (case skip_ws r2 of
                          [] \<Rightarrow> None
                        | c' # r3 \<Rightarrow>
                            (if c' = CHR ''}'' then Some (JObject (dict_set k v acc), r3)
                             else if c' = CHR '','' then
                               (case skip_ws r3 of
                                  [] \<Rightarrow> None
                                | q # r4 \<Rightarrow>
                                    (if q = CHR 0x22 then parse_object n (dict_set k v acc) r4
                                     else None))
                             else None))))))"

definition sample_json_loads :: "string \<Rightarrow> pyerror + json" where
  "sample_json_loads s =
     (case parse_value (Suc (length s)) (skip_ws s) of
        None \<Rightarrow> Inl JSONDecodeError
      | Some (v, r) \<Rightarrow> if skip_ws r = [] then Inr v else Inl JSONDecodeError)"

subsection \<open>Dates\<close>

definition is_leap :: "int \<Rightarrow> bool" where
  "is_leap y = (y mod 4 = 0 \<and> (y mod 100 \<noteq> 0 \<or> y mod 400 = 0))"

definition days_in_month :: "int \<Rightarrow> int \<Rightarrow> int" where
  "days_in_month y m =
     (if m = 2 then (if is_leap y then 29 else 28)
      else if m \<in> set [4, 6, 9, 11] then 30 else 31)"

text \<open>The date of a year, a month and a day, when there is such a day.\<close>

definition make_date :: "int \<Rightarrow> int \<Rightarrow> int \<Rightarrow> date option" where
  "make_date y m d =
     (if 1 \<le> y \<and> y \<le> 9999 \<and> 1 \<le> m \<and> m \<le> 12 \<and> 1 \<le> d \<and> d \<le> days_in_month y m
      then Some \<lparr>year = y, month = m, day = d\<rparr> else None)"

text \<open>A field of exactly \<open>n\<close> digits at the head of a string.\<close>

definition take_digits :: "nat \<Rightarrow> string \<Rightarrow> (int \<times> string) option" where
  "take_digits n s =
     (if n \<le> length s \<and> (\<forall>c\<in>set (take n s). is_digit c)
      then Some (digits_val (take n s), drop n s) else None)"

text \<open>A given character at the head of a string.\<close>

definition take_char :: "char \<Rightarrow> string \<Rightarrow> string option" where
  "take_char c s = (case s of x # r \<Rightarrow> if x = c then Some r else None | [] \<Rightarrow> None)"

text \<open>
  \<open>datetime.strptime(s, "%Y-%m-%d").date()\<close>: four digits for the year, then the month and
  the day with one or two digits each.
\<close>

definition take_1or2 :: "string \<Rightarrow> (int \<times> string) option" where
  "take_1or2 s =
     (case take_digits 2 s of
        Some x \<Rightarrow> Some x
      | None \<Rightarrow> take_digits 1 s)"

definition sample_strptime_ymd :: "string \<Rightarrow> date option" where
  "sample_strptime_ymd s =
     Option.bind (take_digits 4 s) (\<lambda>(y, r1).
     Option.bind (take_char (CHR ''-'') r1) (\<lambda>r2.
     Option.bind (take_1or2 r2) (\<lambda>(m, r3).
     Option.bind (take_char (CHR ''-'') r3) (\<lambda>r4.
     Option.bind (take_1or2 r4) (\<lambda>(d, r5).
     if r5 = [] then make_date y m d else None)))))"

text \<open>
  \<open>datetime.fromisoformat\<close> on these forms, which every version of Python since 3.7
  reads: \<open>YYYY-MM-DD\<close>, alone or followed by one separating character and \<open>HH:MM:SS\<close>, then
  optionally a point and three or six digits, then optionally an offset \<open>+HH:MM\<close> or
  \<open>-HH:MM\<close>. Python reads more forms, which this instance refuses.
\<close>

definition take_fraction :: "string \<Rightarrow> (int \<times> string) option" where
  "take_fraction s =
     (case take_char (CHR ''.'') s of
        None \<Rightarrow> Some (0, s)
      | Some r \<Rightarrow>
          (case take_digits 6 r of
             Some x \<Rightarrow> Some x
           | None \<Rightarrow>
               (case take_digits 3 r of
                  Some (ms, r') \<Rightarrow> Some (1000 * ms, r')
                | None \<Rightarrow> None)))"

definition take_hh_mm :: "string \<Rightarrow> ((int \<times> int) \<times> string) option" where
  "take_hh_mm s =
     Option.bind (take_digits 2 s) (\<lambda>(h, r1).
     Option.bind (take_char (CHR '':'') r1) (\<lambda>r2.
     Option.bind (take_digits 2 r2) (\<lambda>(m, r3).
     if h < 24 \<and> m < 60 then Some ((h, m), r3) else None)))"

definition take_offset :: "string \<Rightarrow> int option option" where
  "take_offset s =
     (if s = [] then Some None
      else
        (let (neg, r) = take_sign s
         in if r = s then None
            else
              Option.bind (take_hh_mm r) (\<lambda>((h, m), r3).
              if r3 = []
              then Some (Some ((if neg then - 1 else 1) * (h * 3600 + m * 60) * 1000000))
              else None)))"

definition take_date :: "string \<Rightarrow> (date \<times> string) option" where
  "take_date s =
     Option.bind (take_digits 4 s) (\<lambda>(y, r1).
     Option.bind (take_char (CHR ''-'') r1) (\<lambda>r2.
     Option.bind (take_digits 2 r2) (\<lambda>(m, r3).
     Option.bind (take_char (CHR ''-'') r3) (\<lambda>r4.
     Option.bind (take_digits 2 r4) (\<lambda>(d, r5).
     Option.bind (make_date y m d) (\<lambda>dd. Some (dd, r5)))))))"

definition take_time :: "date \<Rightarrow> string \<Rightarrow> datetime option" where
  "take_time dd t =
     Option.bind (take_hh_mm t) (\<lambda>((hh, mm), t3).
     Option.bind (take_char (CHR '':'') t3) (\<lambda>t4.
     Option.bind (take_digits 2 t4) (\<lambda>(ss, t5).
     Option.bind (take_fraction t5) (\<lambda>(us, t6).
     Option.bind (take_offset t6) (\<lambda>off.
     if ss < 60
     then Some \<lparr>date_part = dd, hour = hh, minute = mm, second = ss, microsecond = us,
                 utcoffset = off\<rparr>
     else None)))))"

definition sample_fromisoformat :: "string \<Rightarrow> datetime option" where
  "sample_fromisoformat s =
     Option.bind (take_date s) (\<lambda>(dd, r).
       case r of
         [] \<Rightarrow> Some \<lparr>date_part = dd, hour = 0, minute = 0, second = 0, microsecond = 0,
                      utcoffset = None\<rparr>
       | sep # t \<Rightarrow> take_time dd t)"

subsection \<open>The table, and the instance\<close>

text \<open>
  The layout of the table is no part of any property below. The instance writes
  a row as its cells separated by tabs, the headers first, one line for each row; it is
  not the grid \<open>tabulate\<close> draws.
\<close>

definition show_int :: "int \<Rightarrow> string" where
  "show_int i = (if i < 0 then CHR ''-'' # show_nat (- i) else show_nat i)"

definition plain_cell :: "json \<Rightarrow> string" where
  "plain_cell v = (case v of JString s \<Rightarrow> s | JInt i \<Rightarrow> show_int i | _ \<Rightarrow> ''?'')"

definition plain_row :: "string list \<Rightarrow> string" where
  "plain_row cells = concat (map (\<lambda>c. c @ [CHR 0x09]) cells) @ [CHR 0x0A]"

definition plain_table :: "json list list \<Rightarrow> string list \<Rightarrow> string" where
  "plain_table rows headers = concat (map plain_row (headers # map (map plain_cell) rows))"

definition sample_lib :: pylib where
  "sample_lib =
     \<lparr>json_loads = sample_json_loads,
      strptime_ymd = sample_strptime_ymd,
      fromisoformat = sample_fromisoformat,
      float_of_str = sample_float_of_str,
      tabulate_grid = plain_table\<rparr>"

section \<open>The records of the test suite\<close>

text \<open>The fixture \<open>sample_logs\<close> of test_main.py, as \<open>json.loads\<close> returns its lines.\<close>

definition sample_logs :: "json list" where
  "sample_logs =
     [JObject [(''url'', JString ''/api/users''), (''response_time'', JString ''0.123''),
               (''http_user_agent'', JString ''Chrome''),
               (''@timestamp'', JString ''2025-06-22T00:00:00+00:00'')],
      JObject [(''url'', JString ''/api/users''), (''response_time'', JString ''0.456''),
               (''http_user_agent'', JString ''Firefox''),
               (''@timestamp'', JString ''2025-06-22T01:00:00+00:00'')],
      JObject [(''url'', JString ''/api/products?id=1''), (''response_time'', JString ''0.789''),
               (''http_user_agent'', JString ''Chrome''),
               (''@timestamp'', JString ''2025-06-23T00:00:00+00:00'')],
      JObject [(''url'', JString ''/api/context/...''), (''response_time'', JString ''0.321''),
               (''http_user_agent'', JString ''Safari''),
               (''@timestamp'', JString ''2025-06-22T02:00:00+00:00'')]]"

text \<open>A record with no \<open>http_user_agent\<close>.\<close>

definition anonymous_log :: json where
  "anonymous_log = JObject [(''url'', JString ''/api/users#top''), (''response_time'', JInt 1)]"

text \<open>
  The file of the fixture \<open>log_file\<close>: the four records as \<open>json.dumps\<close> writes them, one on
  a line, and a line that is not JSON.
\<close>

definition log_file_lines :: "string list" where
  \<open>log_file_lines =
     [''{"url": "/api/users", "response_time": "0.123", "http_user_agent": "Chrome", "@timestamp": "2025-06-22T00:00:00+00:00"}\<newline>'',
      ''{"url": "/api/users", "response_time": "0.456", "http_user_agent": "Firefox", "@timestamp": "2025-06-22T01:00:00+00:00"}\<newline>'',
      ''{"url": "/api/products?id=1", "response_time": "0.789", "http_user_agent": "Chrome", "@timestamp": "2025-06-23T00:00:00+00:00"}\<newline>'',
      ''{"url": "/api/context/...", "response_time": "0.321", "http_user_agent": "Safari", "@timestamp": "2025-06-22T02:00:00+00:00"}\<newline>'',
      ''invalid json\<newline>'']\<close>

text \<open>A file system with that file alone, and a run that has done nothing yet.\<close>

definition test_fs :: filesystem where
  "test_fs = [''test.log'' \<mapsto> log_file_lines]"

definition io0 :: io where
  "io0 = \<lparr>stdout = [], opened = []\<rparr>"


definition no_timestamp_line :: string where
  \<open>no_timestamp_line = ''{"url": "/api/users", "response_time": 0.5}\<newline>''\<close>

definition no_timestamp_log :: json where
  "no_timestamp_log =
     JObject [(''url'', JString ''/api/users''), (''response_time'', JFloat (Finite (1 / 2)))]"

definition bad_timestamp_line :: string where
  \<open>bad_timestamp_line = ''{"url": "/api/users", "@timestamp": "yesterday"}\<newline>''\<close>





definition number_line :: string where
  "number_line = ''42\<newline>''"

definition number_fs :: filesystem where
  "number_fs = [''numbers.log'' \<mapsto> [number_line]]"

definition june_22 :: date where
  "june_22 = \<lparr>year = 2025, month = 6, day = 22\<rparr>"

definition bogus_command_line :: command_line where
  "bogus_command_line =
     \<lparr>file_values = Some [''test.log''], report_value = Some ''bogus'', date_value = None\<rparr>"

text \<open>Whether a Python value is a mapping.\<close>

definition is_mapping :: "json \<Rightarrow> bool" where
  "is_mapping v = (case v of JObject kvs \<Rightarrow> True | _ \<Rightarrow> False)"

section \<open>Reading a report\<close>


definition row_key :: "json list \<Rightarrow> string option" where
  "row_key row = (case row of JString s # cells \<Rightarrow> Some s | _ \<Rightarrow> None)"

text \<open>
  A text with exactly three decimal digits: it ends with a point and three digits, and
  has no other point.
\<close>

definition three_decimals :: "string \<Rightarrow> bool" where
  "three_decimals s =
     (4 \<le> length s \<and> s ! (length s - 4) = CHR ''.''
      \<and> (\<forall>c\<in>set (drop (length s - 3) s). is_digit c)
      \<and> CHR ''.'' \<notin> set (take (length s - 4) s))"

text \<open>More records for the examples.\<close>

definition products_log :: json where
  "products_log =
     JObject [(''url'', JString ''/api/products''), (''response_time'', JString ''0.211'')]"

definition infinite_log :: json where
  "infinite_log =
     JObject [(''url'', JString ''/api/users''), (''response_time'', JString ''inf'')]"

section \<open>URL normalisation\<close>

lemma py_split_not_Nil: "py_split c s \<noteq> []"
  by (induction s) (auto split: list.splits)

lemma hd_py_split: "hd (py_split c s) = takeWhile (\<lambda>x. x \<noteq> c) s"
proof (induction s)
  case Nil
  show ?case by simp
next
  case (Cons x xs)
  then show ?case
    using py_split_not_Nil [of c xs] by (auto split: list.splits)
qed

lemma normalize_url_takeWhile:
  "normalize_url url = takeWhile (\<lambda>x. x \<noteq> CHR ''#'') (takeWhile (\<lambda>x. x \<noteq> CHR ''?'') url)"
  by (simp add: normalize_url_def hd_py_split)

lemma takeWhile_conj_eq:
  "takeWhile P (takeWhile Q xs) = takeWhile (\<lambda>x. Q x \<and> P x) xs"
  by (induction xs) auto

lemma normalize_url_chars:
  "normalize_url url = takeWhile (\<lambda>x. x \<noteq> CHR ''?'' \<and> x \<noteq> CHR ''#'') url"
  by (simp add: normalize_url_takeWhile takeWhile_conj_eq)

lemma normalize_url_clean:
  "CHR ''?'' \<notin> set (normalize_url url) \<and> CHR ''#'' \<notin> set (normalize_url url)"
  unfolding normalize_url_chars by (auto dest: set_takeWhileD)

section \<open>The user-agent report: grouping and counts\<close>

lemma key_of_KStr: "key_of k = Some (KStr u) \<longleftrightarrow> k = JString u"
  by (cases k rule: key_of.cases) auto

lemma ua_incr_str_items: "ua_incr (JString u) (str_items st) = str_items (str_incr u st)"
  by (induction st) (auto simp: key_of_KStr)

lemma py_get_user_agent:
  "user_agent lg = Some u \<Longrightarrow>
   py_get lg ''http_user_agent'' (JString ''Unknown'') = Inr (JString u)"
  by (auto simp: user_agent_def py_get_def split: json.splits option.splits)

lemma ua_count_str_items:
  "\<forall>lg\<in>set logs. user_agent lg \<noteq> None \<Longrightarrow>
   ua_count logs (str_items st) =
     Inr (str_items (foldl (\<lambda>s u. str_incr u s) st (List.map_filter user_agent logs)))"
proof (induction logs arbitrary: st)
  case Nil
  show ?case by (simp add: List.map_filter_simps)
next
  case (Cons lg logs)
  then obtain u where u: "user_agent lg = Some u" by auto
  from Cons show ?case
    by (simp add: u py_get_user_agent [OF u] ua_incr_str_items List.map_filter_simps)
qed

lemma str_incr_keys: "fst ` set (str_incr u st) = insert u (fst ` set st)"
  by (induction st) force+

lemma str_incr_distinct: "distinct (map fst st) \<Longrightarrow> distinct (map fst (str_incr u st))"
  by (induction st) (auto simp: str_incr_keys)

lemma str_incr_map_of:
  "map_of (str_incr u st) k =
     (if k = u then Some (case map_of st u of None \<Rightarrow> 1 | Some n \<Rightarrow> n + 1) else map_of st k)"
  by (induction st) auto

lemma foldl_str_incr_keys:
  "fst ` set (foldl (\<lambda>s u. str_incr u s) st us) = set us \<union> fst ` set st"
  by (induction us arbitrary: st) (auto simp: str_incr_keys)

lemma foldl_str_incr_distinct:
  "distinct (map fst st) \<Longrightarrow> distinct (map fst (foldl (\<lambda>s u. str_incr u s) st us))"
  by (induction us arbitrary: st) (auto simp: str_incr_distinct)

lemma foldl_str_incr_map_of:
  "map_of (foldl (\<lambda>s u. str_incr u s) st us) k =
     (if k \<in> set us \<or> map_of st k \<noteq> None
      then Some ((case map_of st k of None \<Rightarrow> 0 | Some n \<Rightarrow> n) + count_list us k)
      else None)"
proof (induction us arbitrary: st)
  case Nil
  show ?case by (auto split: option.splits)
next
  case (Cons u us)
  show ?case
    by (auto simp: Cons str_incr_map_of split: option.splits)
qed

lemma py_insort_str_items:
  "py_insort (JString u, n) (str_items ys) = Inr (str_items (insort_key fst (u, n) ys))"
  by (induction ys) (auto simp: not_le not_less split: prod.splits bool.splits)

lemma py_sorted_str_items: "py_sorted (str_items st) = Inr (str_items (sort_key fst st))"
proof (induction st)
  case Nil
  show ?case by simp
next
  case (Cons x st)
  obtain u n where x: "x = (u, n)" by (cases x)
  show ?case by (simp add: Cons x py_insort_str_items)
qed

lemma distinct_map_sort_key:
  assumes "distinct (map f xs)"
  shows "distinct (map f (sort_key g xs))"
proof -
  have "card (f ` set (sort_key g xs)) = length (map f (sort_key g xs))"
    using assms by (simp add: distinct_card [of "map f xs", simplified])
  then show ?thesis by (simp add: card_distinct)
qed

text \<open>
  A list of items with different keys, sorted by key, is the list of its keys in
  ascending order, each with its value.
\<close>

lemma sort_key_fst_eq:
  fixes st :: "('k::linorder \<times> 'v) list"
  assumes "distinct (map fst st)"
  shows "sort_key fst st =
     map (\<lambda>u. (u, the (map_of st u))) (sorted_list_of_set (fst ` set st))"
proof -
  define ys where "ys = sort_key fst st"
  have "sorted (map fst ys)" "distinct (map fst ys)" "set (map fst ys) = set (map fst st)"
    using assms by (simp_all add: ys_def distinct_map_sort_key)
  then have fst_ys: "map fst ys = sorted_list_of_set (fst ` set st)"
    by (intro sorted_distinct_set_unique) simp_all
  have "map (\<lambda>p. (fst p, the (map_of st (fst p)))) ys = ys"
    using assms by (intro map_idI) (auto simp: ys_def)
  then have "ys = map (\<lambda>u. (u, the (map_of st u))) (map fst ys)"
    by (simp add: comp_def)
  then show ?thesis
    unfolding ys_def [symmetric] by (simp only: fst_ys)
qed

lemma count_list_map_filter:
  "count_list (List.map_filter f xs) u = length (filter (\<lambda>x. f x = Some u) xs)"
  by (induction xs) (auto simp: List.map_filter_simps split: option.splits)

lemma UserAgentReport_rows:
  assumes "\<forall>lg\<in>set logs. user_agent lg \<noteq> None"
  shows "UserAgentReport_generate logs =
     Inr (map (\<lambda>u. [JString u, JInt (int (length (filter (\<lambda>lg. user_agent lg = Some u) logs)))])
            (sort (remdups (List.map_filter user_agent logs))),
          [''User-Agent'', ''Count''])"
proof -
  define us where "us = List.map_filter user_agent logs"
  define st where "st = foldl (\<lambda>s u. str_incr u s) [] us"
  have cnt: "ua_count logs [] = Inr (str_items st)"
    using ua_count_str_items [OF assms, of "[]"] by (simp add: st_def us_def)
  have srt: "py_sorted (str_items st) = Inr (str_items (sort_key fst st))"
    by (rule py_sorted_str_items)
  have keys: "fst ` set st = set us"
    by (simp add: st_def foldl_str_incr_keys)
  have dist: "distinct (map fst st)"
    by (simp add: st_def foldl_str_incr_distinct)
  have val: "the (map_of st u) = count_list us u" if "u \<in> set us" for u
    using that by (simp add: st_def foldl_str_incr_map_of)
  have "sort_key fst st = map (\<lambda>u. (u, the (map_of st u))) (sort (remdups us))"
    using sort_key_fst_eq [OF dist] keys by (simp add: sorted_list_of_set_sort_remdups)
  also have "\<dots> = map (\<lambda>u. (u, count_list us u)) (sort (remdups us))"
    by (rule map_cong) (simp_all add: val)
  finally have ys_eq:
    "sort_key fst st = map (\<lambda>u. (u, count_list us u)) (sort (remdups us))" .
  show ?thesis
    unfolding us_def [symmetric]
    by (simp add: UserAgentReport_generate_def cnt srt ys_eq comp_def us_def
        count_list_map_filter)
qed

text \<open>
  Claim C9. For records that are mappings whose \<open>http_user_agent\<close> is a string or is
  missing, the user-agent report has one row \<open>[user_agent, count]\<close> for each distinct
  user agent, the field taken as it stands and \<open>Unknown\<close> for a record without it; the
  count is the number of records of that user agent; the headers are \<open>User-Agent\<close> and
  \<open>Count\<close>.
\<close>

theorem UserAgentReport_generate_groups:
  assumes "\<forall>lg\<in>set logs. user_agent lg \<noteq> None"
  shows "UserAgentReport_generate logs =
     Inr (map (\<lambda>u. [JString u, JInt (int (length (filter (\<lambda>lg. user_agent lg = Some u) logs)))])
            (sort (remdups (List.map_filter user_agent logs))),
          [''User-Agent'', ''Count''])"
  using assms by (rule UserAgentReport_rows)

theorem UserAgentReport_generate_groups_witness:
  "UserAgentReport_generate (sample_logs @ [anonymous_log]) =
     Inr ([[JString ''Chrome'', JInt 2], [JString ''Firefox'', JInt 1],
           [JString ''Safari'', JInt 1], [JString ''Unknown'', JInt 1]],
          [''User-Agent'', ''Count''])"
proof -
  have h: "\<forall>lg\<in>set (sample_logs @ [anonymous_log]). user_agent lg \<noteq> None"
    by (simp add: sample_logs_def anonymous_log_def user_agent_def)
  have "UserAgentReport_generate (sample_logs @ [anonymous_log]) =
     Inr (map (\<lambda>u. [JString u, JInt (int (length
                (filter (\<lambda>lg. user_agent lg = Some u) (sample_logs @ [anonymous_log]))))])
            (sort (remdups (List.map_filter user_agent (sample_logs @ [anonymous_log])))),
          [''User-Agent'', ''Count''])"
    by (rule UserAgentReport_generate_groups [OF h])
  also have "\<dots> =
     Inr ([[JString ''Chrome'', JInt 2], [JString ''Firefox'', JInt 1],
           [JString ''Safari'', JInt 1], [JString ''Unknown'', JInt 1]],
          [''User-Agent'', ''Count''])"
    by code_simp
  finally show ?thesis .
qed

section \<open>Floating point: the conversion of a count\<close>

lemma bit_length_nonneg: "0 \<le> bit_length n"
proof (induction n rule: bit_length.induct)
  case (1 n)
  then show ?case by (subst bit_length.simps) auto
qed

lemma bit_length_0: "n \<le> 0 \<Longrightarrow> bit_length n = 0"
  by (subst bit_length.simps) simp

lemma bit_length_step: "0 < n \<Longrightarrow> bit_length n = 1 + bit_length (n div 2)"
  by (subst bit_length.simps) simp

lemma bit_length_pos: "0 < n \<Longrightarrow> 1 \<le> bit_length n"
  using bit_length_nonneg [of "n div 2"] by (simp add: bit_length_step)

lemma bit_length_upper: "0 \<le> n \<Longrightarrow> n < 2 ^ k \<Longrightarrow> bit_length n \<le> int k"
proof (induction k arbitrary: n)
  case 0
  then have "n = 0" by simp
  then show ?case by (simp add: bit_length_0)
next
  case (Suc k)
  show ?case
  proof (cases "n \<le> 0")
    case True
    then show ?thesis using bit_length_0 [of n] by simp
  next
    case False
    have "n div 2 < 2 ^ k" using Suc.prems by auto
    moreover have "0 \<le> n div 2" using Suc.prems by simp
    ultimately have "bit_length (n div 2) \<le> int k" using Suc.IH by blast
    then show ?thesis using False by (simp add: bit_length_step)
  qed
qed

lemma bit_length_lower: "0 < n \<Longrightarrow> 2 ^ nat (bit_length n - 1) \<le> n"
proof (induction n rule: bit_length.induct)
  case (1 n)
  show ?case
  proof (cases "n = 1")
    case True
    then show ?thesis by (simp add: bit_length_step bit_length_0)
  next
    case False
    then have h: "0 < n div 2" using 1 by simp
    then have ih: "2 ^ nat (bit_length (n div 2) - 1) \<le> n div 2"
      using 1 by simp
    have bl: "bit_length n = 1 + bit_length (n div 2)"
      using 1 by (simp add: bit_length_step)
    have "1 \<le> bit_length (n div 2)" using h by (rule bit_length_pos)
    then have "nat (bit_length n - 1) = Suc (nat (bit_length (n div 2) - 1))"
      using bl by simp
    then show ?thesis using ih by simp
  qed
qed

lemma bit_length_less: "0 \<le> n \<Longrightarrow> n < 2 ^ nat (bit_length n)"
proof (induction n rule: bit_length.induct)
  case (1 n)
  show ?case
  proof (cases "n = 0")
    case True
    then show ?thesis by (simp add: bit_length_0)
  next
    case False
    then have pos: "0 < n" using 1 by simp
    have ih: "n div 2 < 2 ^ nat (bit_length (n div 2))"
      using 1 pos by simp
    have bl: "bit_length n = 1 + bit_length (n div 2)"
      using pos by (simp add: bit_length_step)
    have "nat (bit_length n) = Suc (nat (bit_length (n div 2)))"
      using bl bit_length_nonneg [of "n div 2"] by simp
    then show ?thesis using ih by simp
  qed
qed

lemma round_half_even_of_int: "round_half_even (of_int n) = n"
  by (simp add: round_half_even_def)

lemma round_double_of_int:
  assumes "0 < i" and "i < 2 ^ 53"
  shows "round_double (of_int i) = Finite (of_int i)"
proof -
  define b where "b = bit_length i"
  define k where "k = nat (53 - b)"
  have b1: "1 \<le> b" using assms(1) by (simp add: b_def bit_length_pos)
  have b53: "b \<le> 53" using bit_length_upper [of i 53] assms by (simp add: b_def)
  have il: "ilog2 (of_int i) = b - 1"
    using assms(1) by (simp add: ilog2_def b_def)
  have e: "max (ilog2 (of_int i)) (- 1022) - 52 = b - 53"
    using il b1 by simp
  have p: "pow2 (b - 53) = 1 / of_int (2 ^ k)"
    using b53 by (auto simp: pow2_def k_def)
  have m: "round_half_even (of_int i / (1 / of_int (2 ^ k))) = i * 2 ^ k"
  proof -
    have "(of_int i :: rat) / (1 / of_int (2 ^ k)) = of_int (i * 2 ^ k)" by simp
    then show ?thesis by (simp only: round_half_even_of_int)
  qed
  have "i < 2 ^ nat b" using bit_length_less [of i] assms(1) by (simp add: b_def)
  then have "i * 2 ^ k < 2 ^ nat b * 2 ^ k" by simp
  also have "\<dots> = 2 ^ 53"
    using b1 b53 by (simp add: k_def power_add [symmetric] nat_add_distrib [symmetric])
  finally have lt: "i * 2 ^ k < 2 ^ 53" .
  have "bit_length (i * 2 ^ k) \<le> 53"
    using bit_length_upper [of "i * 2 ^ k" 53] lt assms(1) by simp
  then have ov: "\<not> 1024 < bit_length (i * 2 ^ k) + (b - 53)" using b53 by simp
  have nz: "i * 2 ^ k \<noteq> 0" using assms(1) by simp
  have r: "(of_int (i * 2 ^ k) :: rat) * (1 / of_int (2 ^ k)) = of_int i" by simp
  have q: "(of_int i :: rat) \<noteq> 0" "\<not> (of_int i :: rat) < 0" "\<bar>of_int i :: rat\<bar> = of_int i"
    using assms(1) by simp_all
  show ?thesis
    unfolding round_double_def Let_def q e p m
    using ov nz r q by (simp only: if_False simp_thms)
qed

lemma float_of_int_exact:
  assumes "0 < i" and "i < 2 ^ 53"
  shows "float_of_int i = Inr (Finite (of_int i))"
  by (simp add: float_of_int_def round_double_of_int [OF assms])

lemma float_div_int_count:
  assumes "0 < c" and "int c < 2 ^ 53"
  shows "float_div_int x (int c) = Inr (float_div x (Finite (of_nat c)))"
  using assms float_of_int_exact [of "int c"]
  by (simp add: float_div_int_def float_truediv_def)

section \<open>Reading the logs: what a line does\<close>


text \<open>The records read do not depend on what was printed or opened before.\<close>

lemma snd_read_lines:
  "snd (read_lines L d ls logs st) = snd (read_lines L d ls logs st')"
proof (induction ls arbitrary: logs st st')
  case Nil
  show ?case by simp
next
  case (Cons l ls)
  show ?case
  proof (cases "read_line L d l")
    case (Keep lg)
    then show ?thesis using Cons [of "logs @ [lg]" st st'] by simp
  next
    case Drop
    then show ?thesis using Cons [of logs st st'] by simp
  next
    case (Skip msg)
    then show ?thesis using Cons [of logs "print msg st" "print msg st'"] by simp
  next
    case (Raise e)
    then show ?thesis by simp
  qed
qed

lemma snd_read_files:
  "snd (read_files L fs d ps logs st) = snd (read_files L fs d ps logs st')"
proof (induction ps arbitrary: logs st st')
  case Nil
  show ?case by simp
next
  case (Cons p ps)
  show ?case
  proof (cases "fs p")
    case None
    then show ?thesis by simp
  next
    case (Some ls)
    obtain s1 r1 where r1: "read_lines L d ls logs (st\<lparr>opened := opened st @ [p]\<rparr>) = (s1, r1)"
      by (cases "read_lines L d ls logs (st\<lparr>opened := opened st @ [p]\<rparr>)")
    obtain s2 r2 where r2: "read_lines L d ls logs (st'\<lparr>opened := opened st' @ [p]\<rparr>) = (s2, r2)"
      by (cases "read_lines L d ls logs (st'\<lparr>opened := opened st' @ [p]\<rparr>)")
    have "r1 = r2"
      using snd_read_lines [of L d ls logs "st\<lparr>opened := opened st @ [p]\<rparr>"
          "st'\<lparr>opened := opened st' @ [p]\<rparr>"] r1 r2 by simp
    show ?thesis
    proof (cases r1)
      case (Inl e)
      then show ?thesis using Some r1 r2 \<open>r1 = r2\<close> by simp
    next
      case (Inr logs')
      then show ?thesis using Some r1 r2 \<open>r1 = r2\<close> Cons [of logs' s1 s2] by simp
    qed
  qed
qed

text \<open>No exception that leaves the loops is a \<open>JSONDecodeError\<close>: that one is caught.\<close>

lemma read_line_Raise: "read_line L d line = Raise e \<Longrightarrow> e \<noteq> JSONDecodeError"
  by (auto simp: read_line_def py_getitem_def py_fromisoformat_def
      split: sum.splits option.splits if_splits json.splits)

lemma read_lines_raise_mem:
  assumes "line \<in> set ls" and "read_line L d line = Raise e"
  shows "\<exists>e'. snd (read_lines L d ls logs st) = Inl e'"
  using assms
proof (induction ls arbitrary: logs st)
  case Nil
  then show ?case by simp
next
  case (Cons l ls)
  show ?case
  proof (cases "l = line")
    case True
    then show ?thesis using Cons.prems by simp
  next
    case False
    then have "line \<in> set ls" using Cons.prems by simp
    then show ?thesis
      using Cons.IH Cons.prems(2) by (cases "read_line L d l") simp_all
  qed
qed

lemma read_files_raise_mem:
  assumes "p \<in> set ps" and "fs p = Some ls" and "line \<in> set ls"
    and "read_line L d line = Raise e"
  shows "\<exists>e'. snd (read_files L fs d ps logs st) = Inl e'"
  using assms(1)
proof (induction ps arbitrary: logs st)
  case Nil
  then show ?case by simp
next
  case (Cons q ps)
  show ?case
  proof (cases "fs q")
    case None
    then show ?thesis by simp
  next
    case (Some ls')
    obtain s1 r1 where r1: "read_lines L d ls' logs (st\<lparr>opened := opened st @ [q]\<rparr>) = (s1, r1)"
      by (cases "read_lines L d ls' logs (st\<lparr>opened := opened st @ [q]\<rparr>)")
    show ?thesis
    proof (cases r1)
      case (Inl e')
      then show ?thesis using Some r1 by simp
    next
      case (Inr logs')
      have "q \<noteq> p"
      proof
        assume "q = p"
        then have "ls' = ls" using Some assms(2) by simp
        then have "\<exists>e'. r1 = Inl e'"
          using read_lines_raise_mem [OF assms(3,4), of logs "st\<lparr>opened := opened st @ [q]\<rparr>"] r1
          by simp
        then show False using Inr by simp
      qed
      then have "p \<in> set ps" using Cons.prems by simp
      then show ?thesis using Cons.IH [of logs' s1] Some r1 Inr by simp
    qed
  qed
qed

lemma read_lines_no_JSONDecodeError:
  "snd (read_lines L d ls logs st) \<noteq> Inl JSONDecodeError"
proof (induction ls arbitrary: logs st)
  case Nil
  show ?case by simp
next
  case (Cons l ls)
  show ?case
    using Cons [of _ st] Cons [of logs "print _ st"] read_line_Raise [of L d l]
    by (cases "read_line L d l") auto
qed

lemma read_files_no_JSONDecodeError:
  "snd (read_files L fs d ps logs st) \<noteq> Inl JSONDecodeError"
proof (induction ps arbitrary: logs st)
  case Nil
  show ?case by simp
next
  case (Cons p ps)
  show ?case
  proof (cases "fs p")
    case None
    then show ?thesis by simp
  next
    case (Some ls)
    obtain s1 r1 where r1: "read_lines L d ls logs (st\<lparr>opened := opened st @ [p]\<rparr>) = (s1, r1)"
      by (cases "read_lines L d ls logs (st\<lparr>opened := opened st @ [p]\<rparr>)")
    show ?thesis
    proof (cases r1)
      case (Inl e)
      then show ?thesis
        using Some r1 read_lines_no_JSONDecodeError [of L d ls logs "st\<lparr>opened := opened st @ [p]\<rparr>"]
        by simp
    next
      case (Inr logs')
      then show ?thesis using Some r1 Cons [of logs' s1] by simp
    qed
  qed
qed

lemma read_logs_no_JSONDecodeError:
  "snd (read_logs L fs ps df st) \<noteq> Inl JSONDecodeError"
  by (auto simp: read_logs_def parse_date_filter_def read_files_no_JSONDecodeError
      split: sum.splits option.splits if_splits)

text \<open>What it takes for a line to be kept.\<close>

lemma read_line_Keep:
  assumes "read_line L d line = Keep lg"
  shows "json_loads L line = Inr lg"
    and "d = Some dd \<Longrightarrow>
         \<exists>kvs ts dt. lg = JObject kvs \<and> map_of kvs ''@timestamp'' = Some (JString ts)
           \<and> fromisoformat L ts = Some dt \<and> date_part dt = dd"
  using assms
  by (auto simp: read_line_def py_getitem_def py_fromisoformat_def
      split: sum.splits option.splits if_splits json.splits)

lemma read_lines_kept:
  assumes "snd (read_lines L d ls logs st) = Inr logs'" and "lg \<in> set logs'"
  shows "lg \<in> set logs \<or> (\<exists>line\<in>set ls. read_line L d line = Keep lg)"
  using assms
proof (induction ls arbitrary: logs st)
  case Nil
  then show ?case by simp
next
  case (Cons l ls)
  show ?case
  proof (cases "read_line L d l")
    case (Keep x)
    then have "lg \<in> set (logs @ [x]) \<or> (\<exists>line\<in>set ls. read_line L d line = Keep lg)"
      using Cons.IH [of "logs @ [x]" st] Cons.prems by simp
    then show ?thesis using Keep by auto
  next
    case Drop
    then show ?thesis using Cons.IH [of logs st] Cons.prems by auto
  next
    case (Skip msg)
    then show ?thesis using Cons.IH [of logs "print msg st"] Cons.prems by auto
  next
    case (Raise e)
    then show ?thesis using Cons.prems by simp
  qed
qed

lemma read_files_kept:
  assumes "snd (read_files L fs d ps logs st) = Inr logs'" and "lg \<in> set logs'"
  shows "lg \<in> set logs \<or>
     (\<exists>p\<in>set ps. \<exists>ls. fs p = Some ls \<and> (\<exists>line\<in>set ls. read_line L d line = Keep lg))"
  using assms
proof (induction ps arbitrary: logs st)
  case Nil
  then show ?case by simp
next
  case (Cons p ps)
  show ?case
  proof (cases "fs p")
    case None
    then show ?thesis using Cons.prems by simp
  next
    case (Some ls)
    obtain s1 r1 where r1: "read_lines L d ls logs (st\<lparr>opened := opened st @ [p]\<rparr>) = (s1, r1)"
      by (cases "read_lines L d ls logs (st\<lparr>opened := opened st @ [p]\<rparr>)")
    show ?thesis
    proof (cases r1)
      case (Inl e)
      then show ?thesis using Some r1 Cons.prems by simp
    next
      case (Inr logs1)
      then have rest: "snd (read_files L fs d ps logs1 s1) = Inr logs'"
        using Some r1 Cons.prems by simp
      from Cons.IH [OF rest Cons.prems(2)]
      consider "lg \<in> set logs1"
        | "\<exists>q\<in>set ps. \<exists>ls. fs q = Some ls \<and> (\<exists>line\<in>set ls. read_line L d line = Keep lg)"
        by blast
      then show ?thesis
      proof cases
        case 1
        have "snd (read_lines L d ls logs (st\<lparr>opened := opened st @ [p]\<rparr>)) = Inr logs1"
          using r1 Inr by simp
        from read_lines_kept [OF this 1] show ?thesis using Some by auto
      next
        case 2
        then show ?thesis by auto
      qed
    qed
  qed
qed



section \<open>The average report: the rows\<close>

lemma collect_stats_observations:
  "\<forall>lg\<in>set logs. observation L lg \<noteq> None \<Longrightarrow>
   collect_stats L logs st =
     Inr (foldl (\<lambda>s p. stats_add (fst p) (snd p) s) st (observations L logs))"
proof (induction logs arbitrary: st)
  case Nil
  show ?case by (simp add: observations_def List.map_filter_simps)
next
  case (Cons lg logs)
  then obtain ep t where o: "observation L lg = Some (ep, t)" by auto
  then have "log_endpoint lg = Inr ep" "log_time L lg = Inr t"
    by (auto simp: observation_def split: sum.splits)
  then show ?case
    using Cons o by (simp add: observations_def List.map_filter_simps)
qed

lemma stats_add_keys: "fst ` set (stats_add ep t st) = insert ep (fst ` set st)"
  by (induction st) force+

lemma stats_add_distinct: "distinct (map fst st) \<Longrightarrow> distinct (map fst (stats_add ep t st))"
  by (induction st) (auto simp: stats_add_keys)

lemma stats_add_map_of:
  "map_of (stats_add ep t st) k =
     (if k = ep
      then Some (case map_of st ep of
                   None \<Rightarrow> (1, float_add (Finite 0) t)
                 | Some (c, tot) \<Rightarrow> (c + 1, float_add tot t))
      else map_of st k)"
  by (induction st) auto

lemma foldl_stats_add_keys:
  "fst ` set (foldl (\<lambda>s p. stats_add (fst p) (snd p) s) st obs) = fst ` set obs \<union> fst ` set st"
  by (induction obs arbitrary: st) (auto simp: stats_add_keys)

lemma foldl_stats_add_distinct:
  "distinct (map fst st) \<Longrightarrow>
   distinct (map fst (foldl (\<lambda>s p. stats_add (fst p) (snd p) s) st obs))"
  by (induction obs arbitrary: st) (auto simp: stats_add_distinct)

lemma foldl_stats_add_map_of:
  "map_of (foldl (\<lambda>s p. stats_add (fst p) (snd p) s) st obs) k =
     (if k \<in> fst ` set obs \<or> map_of st k \<noteq> None
      then Some (case map_of st k of
                   None \<Rightarrow> (length (times_of k obs), foldl float_add (Finite 0) (times_of k obs))
                 | Some (c, tot) \<Rightarrow> (c + length (times_of k obs), foldl float_add tot (times_of k obs)))
      else None)"
proof (induction obs arbitrary: st)
  case Nil
  show ?case by (auto simp: times_of_def split: option.splits)
next
  case (Cons p obs)
  show ?case
    by (cases p) (auto simp: Cons stats_add_map_of times_of_def split: option.splits)
qed


lemma average_rows_counts:
  assumes "\<forall>(ep, c, tot)\<in>set st. 0 < c \<and> int c < 2 ^ 53"
  shows "average_rows st =
     Inr (map (\<lambda>(ep, c, tot). (ep, c, format_3f (float_div tot (Finite (of_nat c))))) st)"
  using assms
proof (induction st)
  case Nil
  show ?case by simp
next
  case (Cons x st)
  obtain ep c tot where x: "x = (ep, c, tot)" by (cases x)
  have c: "0 < c" "int c < 2 ^ 53" using Cons.prems x by auto
  have "average_rows st =
     Inr (map (\<lambda>(ep, c, tot). (ep, c, format_3f (float_div tot (Finite (of_nat c))))) st)"
    using Cons by simp
  then show ?case
    by (simp add: x float_div_int_count [OF c])
qed

lemma length_times_of_le: "length (times_of k obs) \<le> length obs"
  by (simp add: times_of_def)

lemma times_of_nonempty: "k \<in> fst ` set obs \<Longrightarrow> 0 < length (times_of k obs)"
  by (auto simp: times_of_def filter_empty_conv)

lemma length_observations: "length (observations L logs) \<le> length logs"
  by (induction logs)
    (auto simp: observations_def List.map_filter_simps split: option.splits)

lemma AverageReport_rows:
  assumes "\<forall>lg\<in>set logs. observation L lg \<noteq> None" and "int (length logs) < 2 ^ 53"
  shows "AverageReport_generate L logs =
     Inr (map (endpoint_row (observations L logs))
            (sort (remdups (map fst (observations L logs)))),
          [''Endpoint'', ''Count'', ''Average Time''])"
proof -
  define obs where "obs = observations L logs"
  define st where "st = foldl (\<lambda>s p. stats_add (fst p) (snd p) s) [] obs"
  define g :: "nat \<times> pyfloat \<Rightarrow> nat \<times> string"
    where "g = (\<lambda>(c, tot). (c, format_3f (float_div tot (Finite (of_nat c)))))"
  define rows where "rows = map (\<lambda>(ep, v). (ep, g v)) st"
  have col: "collect_stats L logs [] = Inr st"
    using collect_stats_observations [OF assms(1), of "[]"] by (simp add: st_def obs_def)
  have keys: "fst ` set st = fst ` set obs"
    by (simp add: st_def foldl_stats_add_keys)
  have dist: "distinct (map fst st)"
    by (simp add: st_def foldl_stats_add_distinct)
  have look: "map_of st k = Some (length (times_of k obs), float_sum (times_of k obs))"
    if "k \<in> fst ` set obs" for k
    using that by (simp add: st_def foldl_stats_add_map_of float_sum_def)
  have len: "int (length obs) < 2 ^ 53"
    using length_observations [of L logs] assms(2) by (simp add: obs_def)
  have cnt: "\<forall>(ep, c, tot)\<in>set st. 0 < c \<and> int c < 2 ^ 53"
  proof safe
    fix ep c tot
    assume mem: "(ep, c, tot) \<in> set st"
    then have k: "ep \<in> fst ` set obs" using keys by force
    have "map_of st ep = Some (c, tot)" using mem dist by simp
    then have c: "c = length (times_of ep obs)" using look [OF k] by simp
    show "0 < c" using c times_of_nonempty [OF k] by simp
    show "int c < 2 ^ 53" using c length_times_of_le [of ep obs] len by simp
  qed
  have avg: "average_rows st = Inr rows"
    using average_rows_counts [OF cnt] by (simp add: rows_def g_def case_prod_unfold)
  have rkeys: "map fst rows = map fst st"
    by (simp add: rows_def case_prod_unfold comp_def)
  have rdist: "distinct (map fst rows)" using dist rkeys by simp
  have rset: "fst ` set rows = fst ` set obs"
    using keys rkeys by (metis list.set_map)
  have rlook: "the (map_of rows k) = g (length (times_of k obs), float_sum (times_of k obs))"
    if "k \<in> fst ` set obs" for k
  proof -
    have "map_of rows k = map_option g (map_of st k)"
      by (simp add: rows_def map_of_map)
    then show ?thesis using look [OF that] by simp
  qed
  have "sort_key fst rows =
      map (\<lambda>u. (u, the (map_of rows u))) (sorted_list_of_set (fst ` set obs))"
    using sort_key_fst_eq [OF rdist] rset by simp
  also have "\<dots> = map (\<lambda>u. (u, g (length (times_of u obs), float_sum (times_of u obs))))
      (sorted_list_of_set (fst ` set obs))"
    by (rule map_cong) (simp_all add: rlook)
  finally have srt: "sort_key fst rows =
      map (\<lambda>u. (u, g (length (times_of u obs), float_sum (times_of u obs))))
        (sort (remdups (map fst obs)))"
    by (simp add: sorted_list_of_set_sort_remdups [symmetric])
  show ?thesis
    unfolding obs_def [symmetric]
    by (simp add: AverageReport_generate_def col avg srt comp_def g_def endpoint_row_def Let_def)
qed

section \<open>Reading the logs: the claims\<close>


lemma read_line_bad_timestamp:
  assumes "json_loads L line = Inr lg"
    and "(\<exists>kvs. lg = JObject kvs \<and> map_of kvs ''@timestamp'' = None)
       \<or> (\<exists>ts. py_getitem lg ''@timestamp'' = Inr ts \<and> (\<forall>dt. py_fromisoformat L ts \<noteq> Inr dt))"
  shows "\<exists>e. e \<noteq> JSONDecodeError \<and> read_line L (Some d) line = Raise e"
proof -
  from assms(2) have "\<exists>e. read_line L (Some d) line = Raise e"
  proof
    assume "\<exists>kvs. lg = JObject kvs \<and> map_of kvs ''@timestamp'' = None"
    then show ?thesis using assms(1) by (auto simp: read_line_def py_getitem_def)
  next
    assume "\<exists>ts. py_getitem lg ''@timestamp'' = Inr ts \<and> (\<forall>dt. py_fromisoformat L ts \<noteq> Inr dt)"
    then obtain ts where ts: "py_getitem lg ''@timestamp'' = Inr ts"
      and bad: "\<forall>dt. py_fromisoformat L ts \<noteq> Inr dt" by blast
    from bad obtain e where "py_fromisoformat L ts = Inl e"
      by (cases "py_fromisoformat L ts") auto
    then show ?thesis using assms(1) ts by (simp add: read_line_def)
  qed
  then show ?thesis using read_line_Raise by blast
qed

lemma run_read_logs_error:
  "snd (read_logs L fs (arg_file a) (arg_date a) st) = Inl e \<Longrightarrow> snd (run L fs a st) = Inl e"
  by (cases "read_logs L fs (arg_file a) (arg_date a) st") (simp add: run_def)


text \<open>
  Claim C3. With a date filter, a line that decodes to a record without \<open>@timestamp\<close>, or
  with an \<open>@timestamp\<close> that \<open>datetime.fromisoformat\<close> does not accept, raises an exception
  that is not \<open>JSONDecodeError\<close>: the loop ends there with nothing printed, and
  \<open>read_logs\<close> and the run end with an exception whenever such a line is in one of the
  files.
\<close>

theorem read_logs_bad_timestamp_fatal:
  assumes "parse_date_filter L date_filter = Inr (Some d)"
    and "json_loads L line = Inr lg"
    and "(\<exists>kvs. lg = JObject kvs \<and> map_of kvs ''@timestamp'' = None)
       \<or> (\<exists>ts. py_getitem lg ''@timestamp'' = Inr ts \<and> (\<forall>dt. py_fromisoformat L ts \<noteq> Inr dt))"
  shows "(\<exists>e. e \<noteq> JSONDecodeError \<and> read_lines L (Some d) (line # rest) logs st = (st, Inl e))
       \<and> (\<forall>fs a p ls.
             arg_date a = date_filter \<and> p \<in> set (arg_file a) \<and> fs p = Some ls \<and> line \<in> set ls \<longrightarrow>
             (\<exists>e. e \<noteq> JSONDecodeError
                \<and> snd (read_logs L fs (arg_file a) date_filter st) = Inl e
                \<and> snd (run L fs a st) = Inl e))"
proof -
  obtain e where e: "e \<noteq> JSONDecodeError" "read_line L (Some d) line = Raise e"
    using read_line_bad_timestamp [OF assms(2,3)] by blast
  have 1: "read_lines L (Some d) (line # rest) logs st = (st, Inl e)"
    using e by simp
  have 2: "\<exists>e'. e' \<noteq> JSONDecodeError
      \<and> snd (read_logs L fs (arg_file a) date_filter st) = Inl e'
      \<and> snd (run L fs a st) = Inl e'"
    if "arg_date a = date_filter" "p \<in> set (arg_file a)" "fs p = Some ls" "line \<in> set ls"
    for fs a p ls
  proof -
    note hyps = that
    obtain e' where e': "snd (read_files L fs (Some d) (arg_file a) [] st) = Inl e'"
      using read_files_raise_mem [where fs = fs and p = p, OF hyps(2,3,4) e(2)] by blast
    then have r: "snd (read_logs L fs (arg_file a) date_filter st) = Inl e'"
      using assms(1) by (simp add: read_logs_def)
    then have "e' \<noteq> JSONDecodeError"
      using read_logs_no_JSONDecodeError [of L fs "arg_file a" date_filter st] by auto
    moreover have "snd (run L fs a st) = Inl e'"
      using r hyps(1) by (intro run_read_logs_error) simp
    ultimately show ?thesis using r by blast
  qed
  show ?thesis using e(1) 1 2 by blast
qed


text \<open>
  Claim C2, as amended. Every record \<open>read_logs\<close> returns is the value \<open>json.loads\<close> gave for
  a line of one of the files; with a date filter it is a mapping whose \<open>@timestamp\<close> is a
  string with the date of the filter. Without a filter it need not be a mapping.
\<close>

theorem read_logs_elements:
  assumes "snd (read_logs L fs ps date_filter st) = Inr logs" and "lg \<in> set logs"
  shows "(\<exists>p\<in>set ps. \<exists>ls. fs p = Some ls \<and> (\<exists>line\<in>set ls. json_loads L line = Inr lg))
       \<and> (\<forall>d. parse_date_filter L date_filter = Inr (Some d) \<longrightarrow>
             (\<exists>kvs ts dt. lg = JObject kvs \<and> map_of kvs ''@timestamp'' = Some (JString ts)
                \<and> fromisoformat L ts = Some dt \<and> date_part dt = d))"
proof -
  obtain f where f: "parse_date_filter L date_filter = Inr f"
    using assms(1) by (cases "parse_date_filter L date_filter") (simp_all add: read_logs_def)
  then have "snd (read_files L fs f ps [] st) = Inr logs"
    using assms(1) by (simp add: read_logs_def)
  from read_files_kept [OF this assms(2)]
  obtain p ls line where pl: "p \<in> set ps" "fs p = Some ls" "line \<in> set ls"
    and keep: "read_line L f line = Keep lg" by auto
  have "json_loads L line = Inr lg" using keep by (rule read_line_Keep(1))
  moreover have "\<exists>kvs ts dt. lg = JObject kvs \<and> map_of kvs ''@timestamp'' = Some (JString ts)
      \<and> fromisoformat L ts = Some dt \<and> date_part dt = d"
    if "parse_date_filter L date_filter = Inr (Some d)" for d
    using read_line_Keep(2) [OF keep, of d] that f by simp
  ultimately show ?thesis using pl by blast
qed

section \<open>The program: an unknown report\<close>

lemma get_report_strategy_None:
  "get_report_strategy r = None \<longleftrightarrow> r \<noteq> ''average'' \<and> r \<noteq> ''user_agent''"
  by (simp add: get_report_strategy_def)

text \<open>
  In \<open>main\<close> the lookup of the strategy comes after \<open>read_logs\<close>: were it reached with an
  unknown name, the files would have been read first. \<open>parse_args\<close> never lets such a
  name through.
\<close>

lemma run_unknown_report:
  assumes "get_report_strategy (arg_report a) = None"
  shows "run L fs a st =
     (case read_logs L fs (arg_file a) (arg_date a) st of
        (st', Inl e) \<Rightarrow> (st', Inl e)
      | (st', Inr logs) \<Rightarrow> (st', Inl ValueError))"
  using assms by (simp add: run_def split: prod.splits sum.splits)

lemma parse_args_report:
  "parse_args cl = Inr a \<Longrightarrow> get_report_strategy (arg_report a) \<noteq> None"
  by (auto simp: parse_args_def get_report_strategy_def split: option.splits if_splits)

text \<open>
  Claim C1. A command line whose \<open>--report\<close> is neither \<open>average\<close> nor \<open>user_agent\<close> ends the
  run in \<open>parse_args\<close> with the exit status 2: no file has been opened and nothing has
  been printed to standard output.
\<close>

theorem main_unknown_report:
  assumes "report_value cl = Some r" and "r \<noteq> ''average''" and "r \<noteq> ''user_agent''"
  shows "main L fs cl st = (st, Inl (SystemExit 2)) \<and> get_report_strategy r = None"
  using assms by (simp add: main_def parse_args_def get_report_strategy_def)

section \<open>The average report: the claims\<close>






lemma row_key_endpoint_row: "row_key (endpoint_row obs ep) = Some ep"
  by (simp add: row_key_def endpoint_row_def Let_def)




text \<open>
  Claim C10. The rows of both reports are in ascending order of their first entry, a
  string, in the lexicographic order of character codes: the first entries are the
  distinct endpoints, or the distinct user agents, each once and sorted.
\<close>

theorem reports_sorted:
  "((\<forall>lg\<in>set logs. observation L lg \<noteq> None) \<and> int (length logs) < 2 ^ 53 \<longrightarrow>
      (\<exists>rows ks. generate L AverageReport logs =
           Inr (rows, [''Endpoint'', ''Count'', ''Average Time''])
         \<and> map row_key rows = map Some ks \<and> sorted ks \<and> distinct ks
         \<and> set ks = fst ` set (observations L logs)))
   \<and> ((\<forall>lg\<in>set logs. user_agent lg \<noteq> None) \<longrightarrow>
      (\<exists>rows ks. generate L UserAgentReport logs = Inr (rows, [''User-Agent'', ''Count''])
         \<and> map row_key rows = map Some ks \<and> sorted ks \<and> distinct ks
         \<and> set ks = set (List.map_filter user_agent logs)))"
proof (intro conjI impI)
  assume h: "(\<forall>lg\<in>set logs. observation L lg \<noteq> None) \<and> int (length logs) < 2 ^ 53"
  define ks where "ks = sort (remdups (map fst (observations L logs)))"
  have "generate L AverageReport logs =
      Inr (map (endpoint_row (observations L logs)) ks, [''Endpoint'', ''Count'', ''Average Time''])"
    using AverageReport_rows [of logs L] h by (simp add: generate_def ks_def)
  moreover have "map row_key (map (endpoint_row (observations L logs)) ks) = map Some ks"
    by (simp add: comp_def row_key_endpoint_row)
  moreover have "sorted ks" "distinct ks" "set ks = fst ` set (observations L logs)"
    by (simp_all add: ks_def)
  ultimately show "\<exists>rows ks. generate L AverageReport logs =
           Inr (rows, [''Endpoint'', ''Count'', ''Average Time''])
         \<and> map row_key rows = map Some ks \<and> sorted ks \<and> distinct ks
         \<and> set ks = fst ` set (observations L logs)"
    by blast
next
  assume h: "\<forall>lg\<in>set logs. user_agent lg \<noteq> None"
  define ks where "ks = sort (remdups (List.map_filter user_agent logs))"
  define f where "f = (\<lambda>u. [JString u, JInt (int (length (filter (\<lambda>lg. user_agent lg = Some u) logs)))])"
  have "generate L UserAgentReport logs = Inr (map f ks, [''User-Agent'', ''Count''])"
    using UserAgentReport_rows [OF h] by (simp add: generate_def ks_def f_def)
  moreover have "map row_key (map f ks) = map Some ks"
    by (simp add: comp_def row_key_def f_def)
  moreover have "sorted ks" "distinct ks" "set ks = set (List.map_filter user_agent logs)"
    by (simp_all add: ks_def)
  ultimately show "\<exists>rows ks. generate L UserAgentReport logs = Inr (rows, [''User-Agent'', ''Count''])
         \<and> map row_key rows = map Some ks \<and> sorted ks \<and> distinct ks
         \<and> set ks = set (List.map_filter user_agent logs)"
    by blast
qed

lemma digit_char_cases:
  "\<forall>k\<in>set [0..9]. is_digit (digit_char k) \<and> digit_char k \<noteq> CHR ''.''"
  by code_simp

lemma digit_char_digit:
  assumes "0 \<le> k" and "k \<le> 9"
  shows "is_digit (digit_char k)" and "digit_char k \<noteq> CHR ''.''"
  using digit_char_cases assms by auto

lemma show_nat_digits: "0 \<le> n \<Longrightarrow> CHR ''.'' \<notin> set (show_nat n)"
proof (induction n rule: show_nat.induct)
  case (1 n)
  show ?case
  proof (cases "n < 10")
    case True
    then show ?thesis
      using 1 digit_char_digit(2) [of n] by (subst show_nat.simps) simp
  next
    case False
    have "0 \<le> n mod 10" "n mod 10 \<le> 9" by simp_all
    then have "digit_char (n mod 10) \<noteq> CHR ''.''" by (rule digit_char_digit(2))
    moreover have "CHR ''.'' \<notin> set (show_nat (n div 10))"
      using 1 False by simp
    ultimately show ?thesis using False by (subst show_nat.simps) auto
  qed
qed

lemma round_half_even_nonneg: "0 \<le> x \<Longrightarrow> 0 \<le> round_half_even x"
  by (auto simp: round_half_even_def Let_def)

lemma format_3f_three_decimals: "three_decimals (format_3f (Finite a))"
proof -
  define n where "n = round_half_even (\<bar>a\<bar> * 1000)"
  define ip where "ip = (if a < 0 then ''-'' else '''') @ show_nat (n div 1000)"
  define ds where "ds = [digit_char (n div 100 mod 10), digit_char (n div 10 mod 10), digit_char (n mod 10)]"
  have n0: "0 \<le> n" by (simp add: n_def round_half_even_nonneg)
  have fmt: "format_3f (Finite a) = ip @ CHR ''.'' # ds"
    by (simp add: format_3f_def n_def ip_def ds_def Let_def)
  have dig: "\<forall>c\<in>set ds. is_digit c"
    by (auto simp: ds_def intro!: digit_char_digit(1))
  have nodot: "CHR ''.'' \<notin> set ip"
    using show_nat_digits [of "n div 1000"] n0 by (simp add: ip_def)
  have len: "length ds = 3" by (simp add: ds_def)
  show ?thesis
    unfolding three_decimals_def fmt using dig nodot len
    by (simp add: nth_append)
qed

text \<open>
  Claim C6, as amended. The row of an endpoint holds the endpoint, the number of its
  records, and \<open>total_time / count\<close> with the format \<open>.3f\<close>, where \<open>total_time\<close> is the float sum
  of the times of its records, in order, and the division is the float division. When
  the quotient is finite the text has exactly three decimal digits; an infinite quotient
  or the NaN is written \<open>inf\<close>, \<open>-inf\<close> or \<open>nan\<close>.
\<close>

theorem AverageReport_average_column:
  assumes "\<forall>lg\<in>set logs. observation L lg \<noteq> None" and "int (length logs) < 2 ^ 53"
  shows "\<exists>rows. AverageReport_generate L logs =
             Inr (rows, [''Endpoint'', ''Count'', ''Average Time''])
       \<and> set rows = endpoint_row (observations L logs) ` fst ` set (observations L logs)
       \<and> (\<forall>ep\<in>fst ` set (observations L logs).
            \<forall>ts. ts = times_of ep (observations L logs) \<longrightarrow>
              endpoint_row (observations L logs) ep =
                [JString ep, JInt (int (length ts)),
                 JString (format_3f (float_div (float_sum ts) (Finite (of_nat (length ts)))))]
              \<and> (\<forall>q. float_div (float_sum ts) (Finite (of_nat (length ts))) = Finite q \<longrightarrow>
                    three_decimals (format_3f (Finite q))))
       \<and> format_3f PosInf = ''inf'' \<and> format_3f NegInf = ''-inf'' \<and> format_3f NaN = ''nan''
       \<and> format_3f NegZero = ''-0.000''"
proof -
  define obs where "obs = observations L logs"
  define rows where "rows = map (endpoint_row obs) (sort (remdups (map fst obs)))"
  have gen: "AverageReport_generate L logs = Inr (rows, [''Endpoint'', ''Count'', ''Average Time''])"
    using AverageReport_rows [OF assms] by (simp add: rows_def obs_def)
  have set: "set rows = endpoint_row obs ` fst ` set obs"
    by (simp add: rows_def)
  have row: "\<forall>ep\<in>fst ` set obs.
            \<forall>ts. ts = times_of ep obs \<longrightarrow>
              endpoint_row obs ep =
                [JString ep, JInt (int (length ts)),
                 JString (format_3f (float_div (float_sum ts) (Finite (of_nat (length ts)))))]
              \<and> (\<forall>q. float_div (float_sum ts) (Finite (of_nat (length ts))) = Finite q \<longrightarrow>
                    three_decimals (format_3f (Finite q)))"
    by (simp add: endpoint_row_def Let_def format_3f_three_decimals)
  have fmt: "format_3f PosInf = ''inf''" "format_3f NegInf = ''-inf''" "format_3f NaN = ''nan''"
    "format_3f NegZero = ''-0.000''"
    by (simp_all add: format_3f_def)
  show ?thesis
    unfolding obs_def [symmetric]
    using gen set row fmt by blast
qed

lemma two_records_one_row:
  assumes "py_getitem a ''url'' = Inr (JString u)" and "py_getitem b ''url'' = Inr (JString v)"
    and "normalize_url u = normalize_url v"
    and "log_time L a = Inr ta" and "log_time L b = Inr tb"
  shows "AverageReport_generate L [a, b] =
     Inr ([[JString (normalize_url u), JInt 2,
            JString (format_3f (float_div (float_add (float_add (Finite 0) ta) tb) (Finite 2)))]],
          [''Endpoint'', ''Count'', ''Average Time''])"
proof -
  have ea: "log_endpoint a = Inr (normalize_url u)" and eb: "log_endpoint b = Inr (normalize_url u)"
    using assms(1,2,3) by (simp_all add: log_endpoint_def)
  have col: "collect_stats L [a, b] [] =
      Inr [(normalize_url u, 2, float_add (float_add (Finite 0) ta) tb)]"
    using ea eb assms(4,5) by simp
  have d: "float_div_int x (int 2) = Inr (float_div x (Finite (of_nat 2)))" for x
    by (rule float_div_int_count) simp_all
  show ?thesis
    unfolding AverageReport_generate_def col using d by simp
qed

text \<open>
  Claim C7. Normalising a URL (cut at the first \<open>?\<close>, then cut the result at the first
  \<open>#\<close>) is idempotent; \<open>/api/products?id=1\<close> and \<open>/api/products\<close> have the same endpoint; and
  two records whose URLs have the same endpoint are aggregated into one row of the
  average report, with the count 2.
\<close>

theorem normalize_url_idempotent:
  "normalize_url (normalize_url url) = normalize_url url
   \<and> normalize_url ''/api/products?id=1'' = normalize_url ''/api/products''
   \<and> normalize_url ''/api/products'' = ''/api/products''
   \<and> (\<forall>L a b u v ta tb.
         py_getitem a ''url'' = Inr (JString u) \<and> py_getitem b ''url'' = Inr (JString v)
         \<and> normalize_url u = normalize_url v
         \<and> log_time L a = Inr ta \<and> log_time L b = Inr tb \<longrightarrow>
         AverageReport_generate L [a, b] =
           Inr ([[JString (normalize_url u), JInt 2,
                  JString (format_3f
                    (float_div (float_add (float_add (Finite 0) ta) tb) (Finite 2)))]],
                [''Endpoint'', ''Count'', ''Average Time'']))"
proof -
  have "takeWhile (\<lambda>x. x \<noteq> CHR ''?'' \<and> x \<noteq> CHR ''#'') (normalize_url url) = normalize_url url"
    using normalize_url_clean [of url] by (intro takeWhile_eq_all_conv [THEN iffD2]) auto
  then have 1: "normalize_url (normalize_url url) = normalize_url url"
    by (simp add: normalize_url_chars [of "normalize_url url"])
  have 2: "normalize_url ''/api/products?id=1'' = ''/api/products''"
    by (simp add: normalize_url_chars)
  have 3: "normalize_url ''/api/products'' = ''/api/products''"
    by (simp add: normalize_url_chars)
  show ?thesis
    using 1 2 3 two_records_one_row by simp
qed

section \<open>Reading the logs: the claims on concrete inputs\<close>

lemma parse_date_filter_june_22:
  "parse_date_filter sample_lib (Some ''2025-06-22'') = Inr (Some june_22)"
  by code_simp

text \<open>The two tests of \<open>read_logs\<close> in test_main.py.\<close>

lemma test_read_logs_with_invalid_json:
  "read_logs sample_lib test_fs [''test.log''] None io0 =
     (\<lparr>stdout = [''Skipping invalid JSON line: invalid json''], opened = [''test.log'']\<rparr>,
      Inr sample_logs)"
  by code_simp

lemma test_read_logs_with_date_filter:
  "read_logs sample_lib test_fs [''test.log''] (Some ''2025-06-22'') io0 =
     (\<lparr>stdout = [''Skipping invalid JSON line: invalid json''], opened = [''test.log'']\<rparr>,
      Inr [sample_logs ! 0, sample_logs ! 1, sample_logs ! 3])"
  by code_simp

theorem main_unknown_report_witness:
  "main sample_lib test_fs bogus_command_line io0 = (io0, Inl (SystemExit 2))"
proof -
  have h1: "report_value bogus_command_line = Some ''bogus''"
    by (simp add: bogus_command_line_def)
  have h2: "''bogus'' \<noteq> ''average''" and h3: "''bogus'' \<noteq> ''user_agent''"
    by simp_all
  show ?thesis
    using main_unknown_report [OF h1 h2 h3, of sample_lib test_fs io0] by (rule conjunct1)
qed


theorem read_logs_bad_timestamp_fatal_witness:
  "read_lines sample_lib (Some june_22) [no_timestamp_line] [] io0 = (io0, Inl KeyError)
   \<and> read_lines sample_lib (Some june_22) [bad_timestamp_line] [] io0 = (io0, Inl ValueError)
   \<and> (\<exists>e. e \<noteq> JSONDecodeError
         \<and> read_lines sample_lib (Some june_22) [no_timestamp_line] [] io0 = (io0, Inl e))"
proof -
  have h2: "json_loads sample_lib no_timestamp_line = Inr no_timestamp_log"
    by code_simp
  have h3: "(\<exists>kvs. no_timestamp_log = JObject kvs \<and> map_of kvs ''@timestamp'' = None)
      \<or> (\<exists>ts. py_getitem no_timestamp_log ''@timestamp'' = Inr ts
            \<and> (\<forall>dt. py_fromisoformat sample_lib ts \<noteq> Inr dt))"
    by (simp add: no_timestamp_log_def)
  note inst = read_logs_bad_timestamp_fatal [OF parse_date_filter_june_22 h2 h3, of "[]" "[]" io0]
  have 3: "\<exists>e. e \<noteq> JSONDecodeError
      \<and> read_lines sample_lib (Some june_22) [no_timestamp_line] [] io0 = (io0, Inl e)"
    using inst by (rule conjunct1)
  have 1: "read_lines sample_lib (Some june_22) [no_timestamp_line] [] io0 = (io0, Inl KeyError)"
    by code_simp
  have 2: "read_lines sample_lib (Some june_22) [bad_timestamp_line] [] io0 = (io0, Inl ValueError)"
    by code_simp
  show ?thesis using 1 2 3 by blast
qed


text \<open>
  Claim C2 as stated fails: a line holding the number 42 is read, with no date filter,
  into a record that is not a mapping.
\<close>

theorem read_logs_non_mapping_counterexample:
  "read_logs sample_lib number_fs [''numbers.log''] None io0 =
     (\<lparr>stdout = [], opened = [''numbers.log'']\<rparr>, Inr [JInt 42])
   \<and> \<not> is_mapping (JInt 42)"
proof -
  have "read_logs sample_lib number_fs [''numbers.log''] None io0 =
     (\<lparr>stdout = [], opened = [''numbers.log'']\<rparr>, Inr [JInt 42])"
    by code_simp
  then show ?thesis by (simp add: is_mapping_def)
qed

theorem read_logs_elements_witness:
  "(\<exists>p\<in>set [''test.log'']. \<exists>ls. test_fs p = Some ls
       \<and> (\<exists>line\<in>set ls. json_loads sample_lib line = Inr (sample_logs ! 0)))
   \<and> (\<exists>kvs ts dt. sample_logs ! 0 = JObject kvs
         \<and> map_of kvs ''@timestamp'' = Some (JString ts)
         \<and> fromisoformat sample_lib ts = Some dt \<and> date_part dt = june_22)"
proof -
  have h1: "snd (read_logs sample_lib test_fs [''test.log''] (Some ''2025-06-22'') io0) =
      Inr [sample_logs ! 0, sample_logs ! 1, sample_logs ! 3]"
    by (simp add: test_read_logs_with_date_filter)
  have h2: "sample_logs ! 0 \<in> set [sample_logs ! 0, sample_logs ! 1, sample_logs ! 3]"
    by simp
  note inst = read_logs_elements [OF h1 h2]
  have 1: "\<exists>p\<in>set [''test.log'']. \<exists>ls. test_fs p = Some ls
       \<and> (\<exists>line\<in>set ls. json_loads sample_lib line = Inr (sample_logs ! 0))"
    using inst by (rule conjunct1)
  have "\<forall>d. parse_date_filter sample_lib (Some ''2025-06-22'') = Inr (Some d) \<longrightarrow>
      (\<exists>kvs ts dt. sample_logs ! 0 = JObject kvs
         \<and> map_of kvs ''@timestamp'' = Some (JString ts)
         \<and> fromisoformat sample_lib ts = Some dt \<and> date_part dt = d)"
    using inst by (rule conjunct2)
  then have 2: "\<exists>kvs ts dt. sample_logs ! 0 = JObject kvs
         \<and> map_of kvs ''@timestamp'' = Some (JString ts)
         \<and> fromisoformat sample_lib ts = Some dt \<and> date_part dt = june_22"
    using parse_date_filter_june_22 by blast
  show ?thesis using 1 2 by blast
qed

section \<open>The average report: the claims on concrete inputs\<close>

lemma sample_logs_observed: "\<forall>lg\<in>set sample_logs. observation sample_lib lg \<noteq> None"
  by code_simp

lemma sample_logs_length: "int (length sample_logs) < 2 ^ 53"
  by (simp add: sample_logs_def)

lemma sample_logs_user_agents: "\<forall>lg\<in>set sample_logs. user_agent lg \<noteq> None"
  by (simp add: sample_logs_def user_agent_def)

text \<open>The test of the average report in test_main.py: three rows, and \<open>0.289\<close> for \<open>/api/users\<close>.\<close>

lemma test_average_report:
  "AverageReport_generate sample_lib sample_logs =
     Inr ([[JString ''/api/context/...'', JInt 1, JString ''0.321''],
           [JString ''/api/products'', JInt 1, JString ''0.789''],
           [JString ''/api/users'', JInt 2, JString ''0.289'']],
          [''Endpoint'', ''Count'', ''Average Time''])"
  by code_simp


theorem reports_sorted_witness:
  "(\<exists>rows ks. generate sample_lib AverageReport sample_logs =
        Inr (rows, [''Endpoint'', ''Count'', ''Average Time''])
      \<and> map row_key rows = map Some ks \<and> sorted ks \<and> distinct ks
      \<and> set ks = fst ` set (observations sample_lib sample_logs))
   \<and> (\<exists>rows ks. generate sample_lib UserAgentReport sample_logs =
        Inr (rows, [''User-Agent'', ''Count''])
      \<and> map row_key rows = map Some ks \<and> sorted ks \<and> distinct ks
      \<and> set ks = set (List.map_filter user_agent sample_logs))"
proof -
  note inst = reports_sorted [of sample_logs sample_lib]
  have 1: "\<exists>rows ks. generate sample_lib AverageReport sample_logs =
        Inr (rows, [''Endpoint'', ''Count'', ''Average Time''])
      \<and> map row_key rows = map Some ks \<and> sorted ks \<and> distinct ks
      \<and> set ks = fst ` set (observations sample_lib sample_logs)"
    using inst [THEN conjunct1, THEN mp, OF conjI [OF sample_logs_observed sample_logs_length]] .
  have 2: "\<exists>rows ks. generate sample_lib UserAgentReport sample_logs =
        Inr (rows, [''User-Agent'', ''Count''])
      \<and> map row_key rows = map Some ks \<and> sorted ks \<and> distinct ks
      \<and> set ks = set (List.map_filter user_agent sample_logs)"
    using inst [THEN conjunct2, THEN mp, OF sample_logs_user_agents] .
  show ?thesis using 1 2 by (rule conjI)
qed

text \<open>
  Claim C6 as stated fails: a record whose \<open>response_time\<close> is the string \<open>inf\<close> gives a row
  whose third entry is \<open>inf\<close>, with no decimal digit.
\<close>

theorem AverageReport_infinite_counterexample:
  "AverageReport_generate sample_lib [infinite_log] =
     Inr ([[JString ''/api/users'', JInt 1, JString ''inf'']],
          [''Endpoint'', ''Count'', ''Average Time''])
   \<and> \<not> three_decimals ''inf''"
proof -
  have "AverageReport_generate sample_lib [infinite_log] =
     Inr ([[JString ''/api/users'', JInt 1, JString ''inf'']],
          [''Endpoint'', ''Count'', ''Average Time''])"
    by code_simp
  moreover have "\<not> three_decimals ''inf''"
    by (simp add: three_decimals_def)
  ultimately show ?thesis by (rule conjI)
qed

theorem AverageReport_average_column_witness:
  "(\<exists>rows. AverageReport_generate sample_lib sample_logs =
        Inr (rows, [''Endpoint'', ''Count'', ''Average Time''])
      \<and> set rows = endpoint_row (observations sample_lib sample_logs)
                      ` fst ` set (observations sample_lib sample_logs))
   \<and> endpoint_row (observations sample_lib sample_logs) ''/api/users'' =
       [JString ''/api/users'', JInt 2, JString ''0.289'']
   \<and> three_decimals ''0.289''"
proof -
  note inst = AverageReport_average_column [OF sample_logs_observed sample_logs_length]
  have 1: "\<exists>rows. AverageReport_generate sample_lib sample_logs =
        Inr (rows, [''Endpoint'', ''Count'', ''Average Time''])
      \<and> set rows = endpoint_row (observations sample_lib sample_logs)
                      ` fst ` set (observations sample_lib sample_logs)"
    using inst by blast
  have 2: "endpoint_row (observations sample_lib sample_logs) ''/api/users'' =
       [JString ''/api/users'', JInt 2, JString ''0.289'']"
    by code_simp
  have 3: "three_decimals ''0.289''"
    by code_simp
  show ?thesis using 1 2 3 by blast
qed

theorem normalize_url_idempotent_witness:
  "AverageReport_generate sample_lib [sample_logs ! 2, products_log] =
     Inr ([[JString ''/api/products'', JInt 2, JString ''0.500'']],
          [''Endpoint'', ''Count'', ''Average Time''])"
proof -
  have a: "py_getitem (sample_logs ! 2) ''url'' = Inr (JString ''/api/products?id=1'')"
    by (simp add: sample_logs_def py_getitem_def)
  have b: "py_getitem products_log ''url'' = Inr (JString ''/api/products'')"
    by (simp add: products_log_def py_getitem_def)
  have n: "normalize_url ''/api/products?id=1'' = normalize_url ''/api/products''"
    using normalize_url_idempotent [THEN conjunct2, THEN conjunct1] .
  have ta: "log_time sample_lib (sample_logs ! 2) = Inr (round_double (789 / 1000))"
    by code_simp
  have tb: "log_time sample_lib products_log = Inr (round_double (211 / 1000))"
    by code_simp
  have "AverageReport_generate sample_lib [sample_logs ! 2, products_log] =
     Inr ([[JString (normalize_url ''/api/products?id=1''), JInt 2,
            JString (format_3f
              (float_div (float_add (float_add (Finite 0) (round_double (789 / 1000)))
                 (round_double (211 / 1000))) (Finite 2)))]],
          [''Endpoint'', ''Count'', ''Average Time''])"
    using normalize_url_idempotent [THEN conjunct2, THEN conjunct2, THEN conjunct2] a b n ta tb
    by blast
  also have "\<dots> =
     Inr ([[JString ''/api/products'', JInt 2, JString ''0.500'']],
          [''Endpoint'', ''Count'', ''Average Time''])"
    by code_simp
  finally show ?thesis .
qed

end
